theory Spec2Isabelle
  imports Complex_Main
begin

section \<open>Wind tunnel scene: pressure shading and streamline particles\<close>

text \<open>
  A shallow embedding of \<^verbatim>\<open>src/components/WindTunnelScene.tsx\<close>.
  JavaScript numbers and GLSL floats are modelled as mathematical reals: rounding,
  infinities and NaN are left out, so every statement below is about the idealised
  arithmetic of the program.

  The source calls a handful of functions of the three.js library (\<^verbatim>\<open>Vector3\<close>,
  \<^verbatim>\<open>Quaternion\<close>, \<^verbatim>\<open>Matrix4\<close>, \<^verbatim>\<open>Object3D\<close>) and of GLSL
  (\<^verbatim>\<open>normalize\<close>, \<^verbatim>\<open>mix\<close>, \<^verbatim>\<open>smoothstep\<close>). They are transcribed
  here from the library's own implementation, under the library's names.
\<close>

subsection \<open>Vectors (THREE.Vector3, GLSL vec3)\<close>

text \<open>The fields \<^verbatim>\<open>x\<close>, \<^verbatim>\<open>y\<close>, \<^verbatim>\<open>z\<close> are named \<open>vx\<close>, \<open>vy\<close>, \<open>vz\<close>.\<close>

datatype vec3 = Vector3 (vx: real) (vy: real) (vz: real)

definition dot :: "vec3 \<Rightarrow> vec3 \<Rightarrow> real" where
  "dot a b = vx a * vx b + vy a * vy b + vz a * vz b"

definition lengthSq :: "vec3 \<Rightarrow> real" where
  "lengthSq v = vx v * vx v + vy v * vy v + vz v * vz v"

definition length3 :: "vec3 \<Rightarrow> real" where
  "length3 v = sqrt (lengthSq v)"

definition multiplyScalar :: "vec3 \<Rightarrow> real \<Rightarrow> vec3" where
  "multiplyScalar v s = Vector3 (vx v * s) (vy v * s) (vz v * s)"

definition divideScalar :: "vec3 \<Rightarrow> real \<Rightarrow> vec3" where
  "divideScalar v s = multiplyScalar v (1 / s)"

definition negate :: "vec3 \<Rightarrow> vec3" where
  "negate v = Vector3 (- vx v) (- vy v) (- vz v)"

definition subVectors :: "vec3 \<Rightarrow> vec3 \<Rightarrow> vec3" where
  "subVectors a b = Vector3 (vx a - vx b) (vy a - vy b) (vz a - vz b)"

definition crossVectors :: "vec3 \<Rightarrow> vec3 \<Rightarrow> vec3" where
  "crossVectors a b =
     Vector3 (vy a * vz b - vz a * vy b)
             (vz a * vx b - vx a * vz b)
             (vx a * vy b - vy a * vx b)"

text \<open>
  \<^verbatim>\<open>Vector3.normalize\<close> is \<^verbatim>\<open>this.divideScalar(this.length() || 1)\<close>: a vector
  of length zero is divided by one and stays zero.
\<close>

definition normalize3 :: "vec3 \<Rightarrow> vec3" where
  "normalize3 v = divideScalar v (if length3 v = 0 then 1 else length3 v)"

subsection \<open>Wind settings and the normalised wind direction\<close>

record WindSettings =
  speed :: real
  directionX :: real
  directionY :: real
  directionZ :: real
  particleCount :: int

text \<open>
  The per-frame callback of \<^verbatim>\<open>Model\<close> (lines 120 to 127): the value copied into
  the uniform \<^verbatim>\<open>uWindDir\<close>.
\<close>

definition modelWindDir :: "WindSettings \<Rightarrow> vec3" where
  "modelWindDir windSettings =
     (let dir = normalize3 (Vector3 (directionX windSettings) (directionY windSettings)
                                    (directionZ windSettings))
      in if lengthSq dir = 0 then Vector3 1 0 0 else dir)"

text \<open>
  The per-frame callback of \<^verbatim>\<open>Streamlines\<close> (lines 186 and 187), on the
  \<^verbatim>\<open>direction\<close> property.
\<close>

definition streamlinesDir :: "vec3 \<Rightarrow> vec3" where
  "streamlinesDir direction =
     (let dir = normalize3 direction
      in if lengthSq dir = 0 then Vector3 1 0 0 else dir)"

text \<open>
  \<^verbatim>\<open>WindTunnelScene\<close> (line 286) builds the \<^verbatim>\<open>direction\<close> property of
  \<^verbatim>\<open>Streamlines\<close> from the wind settings.
\<close>

definition sceneDirection :: "WindSettings \<Rightarrow> vec3" where
  "sceneDirection windSettings =
     Vector3 (directionX windSettings) (directionY windSettings) (directionZ windSettings)"

subsection \<open>Streak scale (lines 226 to 228)\<close>

definition stretch :: "real \<Rightarrow> real" where
  "stretch spd = max 2 (spd * 0.8)"

definition thickness :: "real \<Rightarrow> real" where
  "thickness sizeOff = 0.3 * sizeOff"


subsection \<open>Quaternions and matrices (three.js)\<close>

datatype quat = Quaternion (qx: real) (qy: real) (qz: real) (qw: real)

text \<open>
  A \<^verbatim>\<open>Matrix4\<close> is kept as its four columns \<^verbatim>\<open>elements[0..2]\<close>,
  \<^verbatim>\<open>[4..6]\<close>, \<^verbatim>\<open>[8..10]\<close> and \<^verbatim>\<open>[12..14]\<close>; the fourth row is
  \<open>(0, 0, 0, 1)\<close> in every matrix the program builds.
\<close>

datatype mat4 = Matrix4 (col0: vec3) (col1: vec3) (col2: vec3) (col3: vec3)

definition Number_EPSILON :: real where
  "Number_EPSILON = 1 / 2 ^ 52"

definition quat_length :: "quat \<Rightarrow> real" where
  "quat_length q = sqrt (qx q * qx q + qy q * qy q + qz q * qz q + qw q * qw q)"

definition quat_normalize :: "quat \<Rightarrow> quat" where
  "quat_normalize q =
     (let l = quat_length q
      in if l = 0 then Quaternion 0 0 0 1
         else let l' = 1 / l
              in Quaternion (qx q * l') (qy q * l') (qz q * l') (qw q * l'))"

text \<open>\<^verbatim>\<open>Quaternion.setFromUnitVectors(vFrom, vTo)\<close>.\<close>

definition setFromUnitVectors :: "vec3 \<Rightarrow> vec3 \<Rightarrow> quat" where
  "setFromUnitVectors vFrom vTo =
     (let r = dot vFrom vTo + 1
      in if r < Number_EPSILON then
           (if \<bar>vx vFrom\<bar> > \<bar>vz vFrom\<bar>
            then quat_normalize (Quaternion (- vy vFrom) (vx vFrom) 0 0)
            else quat_normalize (Quaternion 0 (- vz vFrom) (vy vFrom) 0))
         else quat_normalize
                (Quaternion (vy vFrom * vz vTo - vz vFrom * vy vTo)
                            (vz vFrom * vx vTo - vx vFrom * vz vTo)
                            (vx vFrom * vy vTo - vy vFrom * vx vTo)
                            r))"

text \<open>
  \<^verbatim>\<open>Matrix4.lookAt(eye, target, up)\<close>: the third column is the normalised
  \<open>eye - target\<close>, the first is \<open>up \<times> z\<close>, the second \<open>z \<times> x\<close>.
\<close>

definition matrix_lookAt :: "vec3 \<Rightarrow> vec3 \<Rightarrow> vec3 \<Rightarrow> mat4" where
  "matrix_lookAt eye target up =
     (let z0 = subVectors eye target;
          z1 = (if lengthSq z0 = 0 then Vector3 (vx z0) (vy z0) 1 else z0);
          z2 = normalize3 z1;
          x0 = crossVectors up z2;
          z3 = (if lengthSq x0 = 0
                then normalize3
                       (if \<bar>vz up\<bar> = 1 then Vector3 (vx z2 + 0.0001) (vy z2) (vz z2)
                        else Vector3 (vx z2) (vy z2) (vz z2 + 0.0001))
                else z2);
          x1 = (if lengthSq x0 = 0 then crossVectors up z3 else x0);
          x2 = normalize3 x1;
          y = crossVectors z3 x2
      in Matrix4 x2 y z3 (Vector3 0 0 0))"

text \<open>\<^verbatim>\<open>Quaternion.setFromRotationMatrix(m)\<close>, on the upper 3x3 part of \<open>m\<close>.\<close>

definition setFromRotationMatrix :: "mat4 \<Rightarrow> quat" where
  "setFromRotationMatrix m =
     (let m11 = vx (col0 m); m12 = vx (col1 m); m13 = vx (col2 m);
          m21 = vy (col0 m); m22 = vy (col1 m); m23 = vy (col2 m);
          m31 = vz (col0 m); m32 = vz (col1 m); m33 = vz (col2 m);
          trace = m11 + m22 + m33
      in if trace > 0 then
           (let s = 0.5 / sqrt (trace + 1.0)
            in Quaternion ((m32 - m23) * s) ((m13 - m31) * s) ((m21 - m12) * s) (0.25 / s))
         else if m11 > m22 \<and> m11 > m33 then
           (let s = 2.0 * sqrt (1.0 + m11 - m22 - m33)
            in Quaternion (0.25 * s) ((m12 + m21) / s) ((m13 + m31) / s) ((m32 - m23) / s))
         else if m22 > m33 then
           (let s = 2.0 * sqrt (1.0 + m22 - m11 - m33)
            in Quaternion ((m12 + m21) / s) (0.25 * s) ((m23 + m32) / s) ((m13 - m31) / s))
         else
           (let s = 2.0 * sqrt (1.0 + m33 - m11 - m22)
            in Quaternion ((m13 + m31) / s) ((m23 + m32) / s) (0.25 * s) ((m21 - m12) / s)))"

text \<open>\<^verbatim>\<open>Matrix4.compose(position, quaternion, scale)\<close>.\<close>

definition compose :: "vec3 \<Rightarrow> quat \<Rightarrow> vec3 \<Rightarrow> mat4" where
  "compose pos q scl =
     (let x = qx q; y = qy q; z = qz q; w = qw q;
          x2 = x + x; y2 = y + y; z2 = z + z;
          xx = x * x2; xy = x * y2; xz = x * z2;
          yy = y * y2; yz = y * z2; zz = z * z2;
          wx = w * x2; wy = w * y2; wz = w * z2;
          sx = vx scl; sy = vy scl; sz = vz scl
      in Matrix4 (Vector3 ((1 - (yy + zz)) * sx) ((xy + wz) * sx) ((xz - wy) * sx))
                 (Vector3 ((xy - wz) * sy) ((1 - (xx + zz)) * sy) ((yz + wx) * sy))
                 (Vector3 ((xz + wy) * sz) ((yz - wx) * sz) ((1 - (xx + yy)) * sz))
                 pos)"

subsection \<open>The scratch object (THREE.Object3D)\<close>

record Object3D =
  position :: vec3
  quaternion :: quat
  scale :: vec3
  matrix :: mat4

definition new_Object3D :: Object3D where
  "new_Object3D =
     \<lparr>position = Vector3 0 0 0, quaternion = Quaternion 0 0 0 1, scale = Vector3 1 1 1,
      matrix = Matrix4 (Vector3 1 0 0) (Vector3 0 1 0) (Vector3 0 0 1) (Vector3 0 0 0)\<rparr>"

definition updateMatrix :: "Object3D \<Rightarrow> Object3D" where
  "updateMatrix obj = obj\<lparr>matrix := compose (position obj) (quaternion obj) (scale obj)\<rparr>"

text \<open>
  \<^verbatim>\<open>Object3D.lookAt(x, y, z)\<close> for an object without a parent that is neither a
  camera nor a light: the world matrix is refreshed, the object's world position read
  from it, and the rotation taken from \<^verbatim>\<open>_m1.lookAt(_target, _position, this.up)\<close>
  with the default \<^verbatim>\<open>up = (0, 1, 0)\<close>. The position read back from the composed
  matrix is its fourth column.
\<close>

definition lookAt :: "Object3D \<Rightarrow> vec3 \<Rightarrow> Object3D" where
  "lookAt obj target =
     (let obj1 = updateMatrix obj;
          pos = col3 (matrix obj1);
          m1 = matrix_lookAt target pos (Vector3 0 1 0)
      in obj1\<lparr>quaternion := setFromRotationMatrix m1\<rparr>)"

subsection \<open>Streamlines: the particle pool\<close>

text \<open>
  A particle; its fields \<^verbatim>\<open>x\<close>, \<^verbatim>\<open>y\<close>, \<^verbatim>\<open>z\<close> are named \<open>px\<close>,
  \<open>py\<close>, \<open>pz\<close>.
\<close>

record particle =
  px :: real
  py :: real
  pz :: real
  speedOffset :: real
  sizeOffset :: real

text \<open>
  \<^verbatim>\<open>Math.random()\<close> is a sequence \<open>random\<close> of numbers, \<open>random k\<close> being the
  value of the \<open>k\<close>-th call; the number of calls made so far is passed along.
\<close>

type_synonym rand = "nat \<Rightarrow> real"

definition unit_random :: "rand \<Rightarrow> bool" where
  "unit_random random = (\<forall>k. 0 \<le> random k \<and> random k < 1)"

text \<open>The loop of the \<^verbatim>\<open>useMemo\<close> body (lines 169 to 181).\<close>

function initLoop ::
  "rand \<Rightarrow> int \<Rightarrow> real \<Rightarrow> int \<Rightarrow> particle list \<Rightarrow> nat \<Rightarrow> particle list \<times> nat" where
  "initLoop random count bounds i temp n =
     (if i < count then
        initLoop random count bounds (i + 1)
          (temp @ [\<lparr>px = (random n - 0.5) * bounds,
                    py = (random (n + 1) - 0.5) * bounds,
                    pz = (random (n + 2) - 0.5) * bounds,
                    speedOffset = random (n + 3) * 0.5 + 0.8,
                    sizeOffset = random (n + 4) * 0.5 + 0.5\<rparr>])
          (n + 5)
      else (temp, n))"
  by pat_completeness auto
termination
  by (relation "measure (\<lambda>(random, count, bounds, i, temp, n). nat (count - i))") auto

declare initLoop.simps [simp del]

definition initParticles :: "rand \<Rightarrow> int \<Rightarrow> real \<Rightarrow> nat \<Rightarrow> particle list \<times> nat" where
  "initParticles random count bounds n = initLoop random count bounds 0 [] n"

subsection \<open>Streamlines: the per-frame update (lines 183 to 235)\<close>

text \<open>Lines 191 to 215: advection and the wrap of each axis.\<close>

definition moveParticle ::
  "rand \<Rightarrow> real \<Rightarrow> vec3 \<Rightarrow> real \<Rightarrow> real \<Rightarrow> particle \<Rightarrow> nat \<Rightarrow> particle \<times> nat" where
  "moveParticle random spd dir bounds delta p n =
     (let moveSpeed = spd * speedOffset p * delta * 5.0;
          x1 = px p + vx dir * moveSpeed;
          y1 = py p + vy dir * moveSpeed;
          z1 = pz p + vz dir * moveSpeed;
          halfBounds = bounds / 2;
          (x2, n1) =
            (if \<bar>x1\<bar> > halfBounds then
               (if \<bar>vx dir\<bar> > 0.1
                then (- sgn (vx dir) * halfBounds + (random n * 10 - 5), Suc n)
                else ((random n - 0.5) * bounds, Suc n))
             else (x1, n));
          (y2, n2) =
            (if \<bar>y1\<bar> > halfBounds then
               (if \<bar>vy dir\<bar> > 0.1
                then (- sgn (vy dir) * halfBounds + (random n1 * 10 - 5), Suc n1)
                else ((random n1 - 0.5) * bounds, Suc n1))
             else (y1, n1));
          (z2, n3) =
            (if \<bar>z1\<bar> > halfBounds then
               (if \<bar>vz dir\<bar> > 0.1
                then (- sgn (vz dir) * halfBounds + (random n2 * 10 - 5), Suc n2)
                else ((random n2 - 0.5) * bounds, Suc n2))
             else (z1, n2))
      in (p\<lparr>px := x2, py := y2, pz := z2\<rparr>, n3))"

text \<open>Lines 217 to 230: the scratch object is placed, oriented, scaled and composed.\<close>

definition placeDummy :: "real \<Rightarrow> vec3 \<Rightarrow> particle \<Rightarrow> Object3D \<Rightarrow> Object3D" where
  "placeDummy spd dir p dummy =
     (let d1 = dummy\<lparr>position := Vector3 (px p) (py p) (pz p)\<rparr>;
          up = Vector3 0 1 0;
          d2 = (if \<bar>dot dir up\<bar> > 0.99
                then d1\<lparr>quaternion := setFromUnitVectors (Vector3 1 0 0) dir\<rparr>
                else lookAt d1 (Vector3 (px p + vx dir) (py p + vy dir) (pz p + vz dir)));
          d3 = d2\<lparr>scale := Vector3 (stretch spd) (thickness (sizeOffset p))
                                    (thickness (sizeOffset p))\<rparr>
      in updateMatrix d3)"

text \<open>
  \<^verbatim>\<open>particles.forEach((particle, i) => ...)\<close>: the particles are updated in place,
  in order, and each one's matrix is stored at its index with
  \<^verbatim>\<open>setMatrixAt(i, dummy.matrix)\<close>. A write past the end of the instance buffer has
  no effect, as \<open>list_update\<close> has none.
\<close>

fun forEach_particle ::
  "rand \<Rightarrow> real \<Rightarrow> vec3 \<Rightarrow> real \<Rightarrow> real \<Rightarrow> particle list \<Rightarrow> nat \<Rightarrow>
   Object3D \<Rightarrow> mat4 list \<Rightarrow> nat \<Rightarrow> particle list \<times> Object3D \<times> mat4 list \<times> nat" where
  "forEach_particle random spd dir bounds delta [] i dummy im n = ([], dummy, im, n)"
| "forEach_particle random spd dir bounds delta (p # ps) i dummy im n =
     (let (p', n') = moveParticle random spd dir bounds delta p n;
          dummy' = placeDummy spd dir p' dummy;
          im' = im[i := matrix dummy'];
          (ps', dummy'', im'', n'') =
            forEach_particle random spd dir bounds delta ps (Suc i) dummy' im' n'
      in (p' # ps', dummy'', im'', n''))"

text \<open>
  The state of a mounted \<^verbatim>\<open>Streamlines\<close>: the dependencies \<open>(count, bounds)\<close>
  the memoised pool was computed for, the pool itself (the array the frame callback
  updates in place), the scratch object, the instance matrices of
  \<^verbatim>\<open>mesh.current\<close> (\<open>None\<close> while the reference is not attached) and the
  number of random numbers drawn.
\<close>

record Streamlines_state =
  deps :: "int \<times> real"
  particles :: "particle list"
  dummy :: Object3D
  mesh :: "mat4 list option"
  draws :: nat

definition advance ::
  "rand \<Rightarrow> real \<Rightarrow> vec3 \<Rightarrow> real \<Rightarrow> real \<Rightarrow> Streamlines_state \<Rightarrow> Streamlines_state" where
  "advance random spd direction bounds delta st =
     (case mesh st of
        None \<Rightarrow> st
      | Some im \<Rightarrow>
          (let dir = streamlinesDir direction;
               (ps, dm, im', n) =
                 forEach_particle random spd dir bounds delta (particles st) 0 (dummy st) im
                   (draws st)
           in st\<lparr>particles := ps, dummy := dm, mesh := Some im', draws := n\<rparr>))"

text \<open>
  The first render: \<^verbatim>\<open>useMemo\<close> computes the scratch object and the pool.
\<close>

definition mount_Streamlines :: "rand \<Rightarrow> int \<Rightarrow> real \<Rightarrow> nat \<Rightarrow> Streamlines_state" where
  "mount_Streamlines random count bounds n =
     (let (ps, n') = initParticles random count bounds n
      in \<lparr>deps = (count, bounds), particles = ps, dummy = new_Object3D, mesh = None,
          draws = n'\<rparr>)"

text \<open>
  A later render, \<^verbatim>\<open>useMemo(..., [count, bounds])\<close>: the pool is kept while the
  dependencies are the ones it was computed for, and computed anew otherwise.
\<close>

definition useMemo_particles ::
  "rand \<Rightarrow> int \<Rightarrow> real \<Rightarrow> Streamlines_state \<Rightarrow> Streamlines_state" where
  "useMemo_particles random count bounds st =
     (if deps st = (count, bounds) then st
      else (let (ps, n') = initParticles random count bounds (draws st)
            in st\<lparr>deps := (count, bounds), particles := ps, draws := n'\<rparr>))"

text \<open>
  What happens to a mounted \<^verbatim>\<open>Streamlines\<close>: it is rendered again with the
  properties \<^verbatim>\<open>count\<close> and \<^verbatim>\<open>bounds\<close>, its reference is attached to an
  instanced mesh, or a frame is drawn with the \<^verbatim>\<open>speed\<close> and
  \<^verbatim>\<open>direction\<close> of the last render and the frame's \<^verbatim>\<open>delta\<close>. The
  \<^verbatim>\<open>bounds\<close> a frame uses are those of the last render, which the dependencies
  hold.
\<close>

datatype Streamlines_event =
  Render int real
| Attach "mat4 list"
| Frame real vec3 real

fun Streamlines_step :: "rand \<Rightarrow> Streamlines_state \<Rightarrow> Streamlines_event \<Rightarrow> Streamlines_state" where
  "Streamlines_step random st (Render count bounds) = useMemo_particles random count bounds st"
| "Streamlines_step random st (Attach im) = st\<lparr>mesh := Some im\<rparr>"
| "Streamlines_step random st (Frame spd direction delta) =
     advance random spd direction (snd (deps st)) delta st"

definition Streamlines_run ::
  "rand \<Rightarrow> Streamlines_state \<Rightarrow> Streamlines_event list \<Rightarrow> Streamlines_state" where
  "Streamlines_run random st evs = foldl (Streamlines_step random) st evs"

text \<open>A particle lies in the cube of side \<open>bounds\<close> centred at the origin.\<close>

definition inside_bounds :: "real \<Rightarrow> particle \<Rightarrow> bool" where
  "inside_bounds bounds p =
     (\<bar>px p\<bar> \<le> bounds / 2 \<and> \<bar>py p\<bar> \<le> bounds / 2 \<and> \<bar>pz p\<bar> \<le> bounds / 2)"

text \<open>
  The value one axis takes in lines 200 to 215, for the advected coordinate \<open>c\<close>, the
  wind component \<open>d\<close> on that axis and the index \<open>k\<close> of the next random number.
\<close>

definition wrapped :: "rand \<Rightarrow> real \<Rightarrow> real \<Rightarrow> real \<Rightarrow> nat \<Rightarrow> real" where
  "wrapped random bounds d c k =
     (if \<bar>c\<bar> > bounds / 2 then
        (if \<bar>d\<bar> > 0.1 then - sgn d * (bounds / 2) + (random k * 10 - 5)
         else (random k - 0.5) * bounds)
      else c)"

text \<open>
  The data model has \<^verbatim>\<open>particleCount\<close> a natural number: a render asks for a
  count that is not negative.
\<close>

definition count_nonneg :: "Streamlines_event \<Rightarrow> bool" where
  "count_nonneg e = (case e of Render count bounds \<Rightarrow> 0 \<le> count | _ \<Rightarrow> True)"

text \<open>The pool has as many particles as the \<^verbatim>\<open>count\<close> of the last render.\<close>

definition pool_sized :: "Streamlines_state \<Rightarrow> bool" where
  "pool_sized st = (int (length (particles st)) = fst (deps st))"

subsection \<open>The fragment shader of AerodynamicMaterial (lines 35 to 92)\<close>

text \<open>
  GLSL built-ins. \<^verbatim>\<open>normalize(v)\<close> is \<open>v / length(v)\<close>; GLSL leaves it undefined for
  the zero vector, where the division of HOL returns zero. \<^verbatim>\<open>mix(a, b, t)\<close> is
  \<open>a * (1 - t) + b * t\<close> on each component. \<^verbatim>\<open>smoothstep(e0, e1, x)\<close> is
  \<open>t * t * (3 - 2 * t)\<close> for \<open>t = clamp((x - e0) / (e1 - e0), 0, 1)\<close>.
\<close>

definition glsl_normalize :: "vec3 \<Rightarrow> vec3" where
  "glsl_normalize v = Vector3 (vx v / length3 v) (vy v / length3 v) (vz v / length3 v)"

definition clamp :: "real \<Rightarrow> real \<Rightarrow> real \<Rightarrow> real" where
  "clamp a lo hi = min (max a lo) hi"

definition smoothstep :: "real \<Rightarrow> real \<Rightarrow> real \<Rightarrow> real" where
  "smoothstep edge0 edge1 a =
     (let t = clamp ((a - edge0) / (edge1 - edge0)) 0 1 in t * t * (3 - 2 * t))"

definition mix :: "vec3 \<Rightarrow> vec3 \<Rightarrow> real \<Rightarrow> vec3" where
  "mix a b t =
     Vector3 (vx a * (1 - t) + vx b * t) (vy a * (1 - t) + vy b * t)
             (vz a * (1 - t) + vz b * t)"

text \<open>The uniforms of lines 13 to 17.\<close>

definition uColorHigh :: vec3 where
  "uColorHigh = Vector3 1.0 0.2 0.0"

definition uColorMid :: vec3 where
  "uColorMid = Vector3 1.0 1.0 0.0"

definition uColorLow :: vec3 where
  "uColorLow = Vector3 0.0 0.5 1.0"

text \<open>Line 60: the alignment of the normal with the wind.\<close>

definition intensity :: "vec3 \<Rightarrow> vec3 \<Rightarrow> real" where
  "intensity vNormal uWindDir = dot (glsl_normalize vNormal) (negate (glsl_normalize uWindDir))"

text \<open>Lines 64 and 65: the flow animation.\<close>

definition flowPhase :: "vec3 \<Rightarrow> vec3 \<Rightarrow> real \<Rightarrow> real" where
  "flowPhase vWorldPosition uWindDir uTime =
     dot vWorldPosition (glsl_normalize uWindDir) * 0.5 - uTime * 10.0"

definition flowEffect :: "vec3 \<Rightarrow> vec3 \<Rightarrow> real \<Rightarrow> real" where
  "flowEffect vWorldPosition uWindDir uTime = sin (flowPhase vWorldPosition uWindDir uTime) * 0.05"

text \<open>Line 70: the turbulence of the wake.\<close>

definition turbulence :: "vec3 \<Rightarrow> real \<Rightarrow> real" where
  "turbulence vWorldPosition uTime =
     sin (vx vWorldPosition * 5.0 + uTime * 10.0) * sin (vy vWorldPosition * 5.0 + uTime * 8.0)
       * 0.15"

text \<open>Lines 68 to 75: the intensity after the animation has been added.\<close>

definition adjustedIntensity :: "vec3 \<Rightarrow> vec3 \<Rightarrow> vec3 \<Rightarrow> real \<Rightarrow> real" where
  "adjustedIntensity vNormal vWorldPosition uWindDir uTime =
     (let i = intensity vNormal uWindDir
      in if i < - 0.2 then i + turbulence vWorldPosition uTime
         else i + flowEffect vWorldPosition uWindDir uTime)"

text \<open>
  Lines 77 to 88: the colour for an adjusted intensity \<open>i\<close> and the flow effect \<open>fe\<close>
  of lines 64 and 65.
\<close>

definition colorMapping :: "real \<Rightarrow> real \<Rightarrow> vec3" where
  "colorMapping i fe =
     (if i > 0.2 then mix uColorMid uColorHigh (smoothstep 0.2 1.0 i)
      else if i > - 0.2 then mix uColorLow uColorMid (smoothstep (- 0.2) 0.2 i)
      else multiplyScalar uColorLow (0.6 + fe))"

text \<open>Line 90: \<^verbatim>\<open>gl_FragColor = vec4(color, 1.0)\<close>, as the colour and the alpha.\<close>

definition fragmentShader :: "vec3 \<Rightarrow> vec3 \<Rightarrow> vec3 \<Rightarrow> real \<Rightarrow> vec3 \<times> real" where
  "fragmentShader vNormal vWorldPosition uWindDir uTime =
     (colorMapping (adjustedIntensity vNormal vWorldPosition uWindDir uTime)
                   (flowEffect vWorldPosition uWindDir uTime),
      1.0)"

subsection \<open>Model: loading the mesh (lines 102 to 115 and 134)\<close>

text \<open>
  What a callback has told: \<open>Loaded\<close> stands for a call of the \<^verbatim>\<open>onLoad\<close>
  property, \<open>LoadError\<close> for an error handed to an error callback.
\<close>

datatype notice = Loaded | LoadError

text \<open>
  The state of a mounted \<^verbatim>\<open>Model\<close> with geometries of type \<open>'g\<close>: the
  properties \<^verbatim>\<open>url\<close> and \<^verbatim>\<open>onLoad\<close> (whether one was given) of the last
  render, the \<^verbatim>\<open>geometry\<close> state, the loads that were issued and have not finished
  (each with the \<^verbatim>\<open>onLoad\<close> its callback closed over), what the callbacks have
  told so far, and the values of the uniforms \<^verbatim>\<open>uWindDir\<close> and \<^verbatim>\<open>uTime\<close> of
  the material. The component draws the mesh of \<open>geometry\<close>, and nothing while it is
  \<open>None\<close> (line 134).
\<close>

record 'g Model_state =
  url :: string
  onLoad :: bool
  geometry :: "'g option"
  inflight :: "(string \<times> bool) list"
  notices :: "notice list"
  uniform_uWindDir :: vec3
  uniform_uTime :: real

text \<open>
  The effect of lines 106 to 115 calls \<^verbatim>\<open>loader.load(url, callback)\<close>: the load is
  issued and the effect returns. It returns no clean-up function.
\<close>

definition useEffect_load :: "'g Model_state \<Rightarrow> 'g Model_state" where
  "useEffect_load st = st\<lparr>inflight := inflight st @ [(url st, onLoad st)]\<rparr>"

definition Model_mount :: "string \<Rightarrow> bool \<Rightarrow> 'g Model_state" where
  "Model_mount u cb =
     useEffect_load \<lparr>url = u, onLoad = cb, geometry = None, inflight = [], notices = [],
                     uniform_uWindDir = Vector3 1 0 0, uniform_uTime = 0\<rparr>"

text \<open>
  The callback of lines 108 to 114, for a load issued with \<^verbatim>\<open>onLoad\<close> given or
  not (\<open>cb\<close>); \<open>prepare\<close> stands for \<^verbatim>\<open>computeBoundingBox\<close>, \<^verbatim>\<open>center\<close> and
  \<^verbatim>\<open>computeVertexNormals\<close> on the parsed geometry.
\<close>

definition load_callback :: "('g \<Rightarrow> 'g) \<Rightarrow> bool \<Rightarrow> 'g \<Rightarrow> 'g Model_state \<Rightarrow> 'g Model_state" where
  "load_callback prepare cb geo st =
     (let st1 = st\<lparr>geometry := Some (prepare geo)\<rparr>
      in if cb then st1\<lparr>notices := notices st1 @ [Loaded]\<rparr> else st1)"

text \<open>
  How \<^verbatim>\<open>STLLoader.load(url, onLoad, onProgress, onError)\<close> ends a request. When the
  resource was read and the parser returned a geometry, \<^verbatim>\<open>onLoad\<close> is called with
  it. The parser does not validate what it reads: a resource without a complete solid,
  such as an ASCII file cut off before its end, is parsed to an empty geometry and ends
  the same way. When the stream cannot be read or the parser throws, the loader catches
  the error itself, calls \<^verbatim>\<open>onError\<close> if one was given and logs the error
  otherwise; nothing is thrown to the caller.
\<close>

datatype 'g load_result = Parsed 'g | Rejected

definition STLLoader_finish ::
  "('g \<Rightarrow> 's \<Rightarrow> 's) \<Rightarrow> ('s \<Rightarrow> 's) option \<Rightarrow> 'g load_result \<Rightarrow> 's \<Rightarrow> 's" where
  "STLLoader_finish onLoad_cb onError_cb res st =
     (case res of
        Parsed geo \<Rightarrow> onLoad_cb geo st
      | Rejected \<Rightarrow> (case onError_cb of Some h \<Rightarrow> h st | None \<Rightarrow> st))"

text \<open>
  What happens to a mounted \<^verbatim>\<open>Model\<close>: it is rendered again (the effect runs when
  \<^verbatim>\<open>url\<close> or \<^verbatim>\<open>onLoad\<close> changed); the loader ends a load that is in flight,
  with a parsed geometry (\<open>LoadDone\<close>) or by rejecting it (\<open>LoadFail\<close>); or the render
  loop draws a frame (\<open>Tick\<close>, with the wind settings of the last render and the elapsed
  time). Line 108 calls \<^verbatim>\<open>load\<close> with two arguments, the resource and the callback:
  no error callback is given. The frame callback of lines 117 to 132 writes the uniforms
  when \<^verbatim>\<open>materialRef.current\<close> is set, which is when a geometry is drawn.
\<close>

datatype 'g Model_event =
  Rerender string bool
| LoadDone string 'g
| LoadFail string
| Tick WindSettings real

fun Model_step :: "('g \<Rightarrow> 'g) \<Rightarrow> 'g Model_state \<Rightarrow> 'g Model_event \<Rightarrow> 'g Model_state" where
  "Model_step prepare st (Rerender u cb) =
     (if (u, cb) = (url st, onLoad st) then st
      else useEffect_load (st\<lparr>url := u, onLoad := cb\<rparr>))"
| "Model_step prepare st (LoadDone u geo) =
     (case find (\<lambda>r. fst r = u) (inflight st) of
        None \<Rightarrow> st
      | Some r \<Rightarrow>
          STLLoader_finish (load_callback prepare (snd r)) None (Parsed geo)
            (st\<lparr>inflight := remove1 r (inflight st)\<rparr>))"
| "Model_step prepare st (LoadFail u) =
     (case find (\<lambda>r. fst r = u) (inflight st) of
        None \<Rightarrow> st
      | Some r \<Rightarrow>
          STLLoader_finish (load_callback prepare (snd r)) None Rejected
            (st\<lparr>inflight := remove1 r (inflight st)\<rparr>))"
| "Model_step prepare st (Tick windSettings elapsedTime) =
     (if geometry st = None then st
      else st\<lparr>uniform_uWindDir := modelWindDir windSettings,
              uniform_uTime := elapsedTime\<rparr>)"

definition Model_run :: "('g \<Rightarrow> 'g) \<Rightarrow> 'g Model_state \<Rightarrow> 'g Model_event list \<Rightarrow> 'g Model_state" where
  "Model_run prepare st evs = foldl (Model_step prepare) st evs"

section \<open>Properties\<close>

subsection \<open>Vector facts\<close>

lemma lengthSq_nonneg: "0 \<le> lengthSq v"
  by (simp add: lengthSq_def)

lemma lengthSq_zero_iff: "lengthSq v = 0 \<longleftrightarrow> v = Vector3 0 0 0"
proof
  assume h: "lengthSq v = 0"
  have "vx v * vx v = 0 \<and> vy v * vy v = 0 \<and> vz v * vz v = 0"
    using h zero_le_square [of "vx v"] zero_le_square [of "vy v"] zero_le_square [of "vz v"]
    unfolding lengthSq_def by linarith
  then show "v = Vector3 0 0 0"
    by (cases v) simp
next
  assume "v = Vector3 0 0 0"
  then show "lengthSq v = 0" by (simp add: lengthSq_def)
qed

lemma length3_zero_iff: "length3 v = 0 \<longleftrightarrow> v = Vector3 0 0 0"
  by (simp add: length3_def lengthSq_zero_iff)

lemma normalize3_unit: "length3 v = 1 \<Longrightarrow> normalize3 v = v"
  by (cases v) (simp add: normalize3_def divideScalar_def multiplyScalar_def)

lemma normalize3_zero: "normalize3 (Vector3 0 0 0) = Vector3 0 0 0"
  by (simp add: normalize3_def divideScalar_def multiplyScalar_def)

lemma lengthSq_multiplyScalar: "lengthSq (multiplyScalar v s) = s * s * lengthSq v"
  by (simp add: lengthSq_def multiplyScalar_def algebra_simps)

lemma lengthSq_normalize3:
  assumes "v \<noteq> Vector3 0 0 0"
  shows "lengthSq (normalize3 v) = 1"
proof -
  have pos: "0 < lengthSq v"
    using assms lengthSq_nonneg [of v] lengthSq_zero_iff [of v] by linarith
  have nz: "length3 v \<noteq> 0"
    using assms by (simp add: length3_zero_iff)
  have sq: "length3 v * length3 v = lengthSq v"
    using lengthSq_nonneg [of v] by (simp add: length3_def)
  have "lengthSq (normalize3 v) = (1 / length3 v) * (1 / length3 v) * lengthSq v"
    using nz by (simp add: normalize3_def divideScalar_def lengthSq_multiplyScalar)
  also have "\<dots> = lengthSq v / (length3 v * length3 v)"
    by simp
  also have "\<dots> = 1"
    using pos sq by simp
  finally show ?thesis .
qed

lemma streamlinesDir_unit: "lengthSq (streamlinesDir d) = 1"
proof (cases "d = Vector3 0 0 0")
  case True
  then show ?thesis
    by (simp add: streamlinesDir_def normalize3_zero lengthSq_def)
next
  case False
  then show ?thesis
    by (simp add: streamlinesDir_def Let_def lengthSq_normalize3)
qed

subsection \<open>Wind-direction normalisation\<close>

text \<open>
  C7. Both normalisations of the wind direction (the shader uniform in \<^verbatim>\<open>Model\<close>,
  the particle update in \<^verbatim>\<open>Streamlines\<close>) return a unit vector unchanged, and map
  the all-zero vector to \<open>(1, 0, 0)\<close>: the degenerate input has a defined result.
\<close>

theorem wind_normalization_idempotent_and_zero_fallback:
  "(length3 (sceneDirection ws) = 1 \<longrightarrow>
      modelWindDir ws = sceneDirection ws \<and>
      streamlinesDir (sceneDirection ws) = sceneDirection ws) \<and>
   (sceneDirection ws = Vector3 0 0 0 \<longrightarrow>
      modelWindDir ws = Vector3 1 0 0 \<and>
      streamlinesDir (sceneDirection ws) = Vector3 1 0 0) \<and>
   streamlinesDir (streamlinesDir d) = streamlinesDir d \<and>
   modelWindDir ws = streamlinesDir (sceneDirection ws)"
proof -
  have same: "modelWindDir ws = streamlinesDir (sceneDirection ws)"
    by (simp add: modelWindDir_def streamlinesDir_def sceneDirection_def)
  have unit: "streamlinesDir v = v" if "length3 v = 1" for v
  proof -
    have "lengthSq v = 1"
      using that by (simp add: length3_def)
    then show ?thesis
      using that by (simp add: streamlinesDir_def normalize3_unit)
  qed
  have zero: "streamlinesDir (Vector3 0 0 0) = Vector3 1 0 0"
    by (simp add: streamlinesDir_def normalize3_zero lengthSq_def)
  have idem: "streamlinesDir (streamlinesDir d) = streamlinesDir d"
  proof -
    have "length3 (streamlinesDir d) = 1"
      by (simp add: length3_def streamlinesDir_unit)
    then show ?thesis by (rule unit)
  qed
  show ?thesis
    using same unit [of "sceneDirection ws"] zero idem by simp
qed

theorem wind_normalization_witness:
  "length3 (sceneDirection \<lparr>speed = 20, directionX = 0, directionY = 1, directionZ = 0,
                              particleCount = 2000\<rparr>) = 1 \<and>
   modelWindDir \<lparr>speed = 20, directionX = 0, directionY = 1, directionZ = 0,
                 particleCount = 2000\<rparr> = Vector3 0 1 0 \<and>
   sceneDirection \<lparr>speed = 0, directionX = 0, directionY = 0, directionZ = 0,
                   particleCount = 100\<rparr> = Vector3 0 0 0 \<and>
   modelWindDir \<lparr>speed = 0, directionX = 0, directionY = 0, directionZ = 0,
                 particleCount = 100\<rparr> = Vector3 1 0 0 \<and>
   streamlinesDir (Vector3 0 0 0) = Vector3 1 0 0"
proof -
  let ?u = "\<lparr>speed = 20, directionX = 0, directionY = 1, directionZ = 0,
             particleCount = 2000\<rparr>"
  let ?z = "\<lparr>speed = 0, directionX = 0, directionY = 0, directionZ = 0,
             particleCount = 100\<rparr>"
  have u: "length3 (sceneDirection ?u) = 1"
    by (simp add: sceneDirection_def length3_def lengthSq_def)
  have z: "sceneDirection ?z = Vector3 0 0 0"
    by (simp add: sceneDirection_def)
  show ?thesis
    using u z
      wind_normalization_idempotent_and_zero_fallback [of ?u "Vector3 0 0 0"]
      wind_normalization_idempotent_and_zero_fallback [of ?z "Vector3 0 0 0"]
    by (simp add: sceneDirection_def)
qed

subsection \<open>Streak length and thickness\<close>

lemma scale_placeDummy:
  "scale (placeDummy spd dir p dm) =
     Vector3 (stretch spd) (thickness (sizeOffset p)) (thickness (sizeOffset p))"
  by (simp add: placeDummy_def Let_def updateMatrix_def)

text \<open>
  C9. For wind speeds \<open>0 \<le> s1 \<le> s2\<close> the stretch factor \<open>max 2 (s * 0.8)\<close> does not
  decrease and is never below 2, and the scale the frame update gives a particle has
  \<open>0.3 * sizeOffset\<close> on its other two axes whatever the speed is.
\<close>

theorem streak_length_monotone_thickness_fixed:
  assumes "0 \<le> s1" and "s1 \<le> s2"
  shows "stretch s1 \<le> stretch s2 \<and> 2 \<le> stretch s1 \<and>
         vx (scale (placeDummy s1 dir p dm)) = max 2 (s1 * 0.8) \<and>
         vy (scale (placeDummy s1 dir p dm)) = 0.3 * sizeOffset p \<and>
         vz (scale (placeDummy s1 dir p dm)) = 0.3 * sizeOffset p \<and>
         vy (scale (placeDummy s1 dir p dm)) = vy (scale (placeDummy s2 dir p dm)) \<and>
         vz (scale (placeDummy s1 dir p dm)) = vz (scale (placeDummy s2 dir p dm))"
  using assms by (simp add: scale_placeDummy stretch_def thickness_def max_def)

theorem streak_length_witness:
  "(0::real) \<le> 1 \<and> (1::real) \<le> 20 \<and> stretch 1 = 2 \<and> stretch 20 = 16 \<and>
   stretch 1 \<le> stretch 20 \<and>
   vy (scale (placeDummy 1 (Vector3 1 0 0)
        \<lparr>px = 0, py = 0, pz = 0, speedOffset = 1, sizeOffset = 1\<rparr> new_Object3D)) =
   vy (scale (placeDummy 20 (Vector3 1 0 0)
        \<lparr>px = 0, py = 0, pz = 0, speedOffset = 1, sizeOffset = 1\<rparr> new_Object3D))"
  using streak_length_monotone_thickness_fixed [of 1 20 "Vector3 1 0 0"
          "\<lparr>px = 0, py = 0, pz = 0, speedOffset = 1, sizeOffset = 1\<rparr>" new_Object3D]
  by (simp add: stretch_def)

subsection \<open>What a frame leaves untouched\<close>

lemma moveParticle_offsets:
  "speedOffset (fst (moveParticle random spd dir bounds delta p n)) = speedOffset p \<and>
   sizeOffset (fst (moveParticle random spd dir bounds delta p n)) = sizeOffset p"
  by (simp add: moveParticle_def Let_def split: prod.splits)

lemma forEach_particle_offsets:
  "map speedOffset (fst (forEach_particle random spd dir bounds delta ps i dm im n)) =
     map speedOffset ps \<and>
   map sizeOffset (fst (forEach_particle random spd dir bounds delta ps i dm im n)) =
     map sizeOffset ps"
proof (induction ps arbitrary: i dm im n)
  case Nil
  show ?case by simp
next
  case (Cons p ps)
  obtain p' n' where mv: "moveParticle random spd dir bounds delta p n = (p', n')"
    by (cases "moveParticle random spd dir bounds delta p n")
  have off: "speedOffset p' = speedOffset p \<and> sizeOffset p' = sizeOffset p"
    using moveParticle_offsets [of random spd dir bounds delta p n] mv by simp
  show ?case
    using Cons.IH [of "Suc i" "placeDummy spd dir p' dm"
                      "im[i := matrix (placeDummy spd dir p' dm)]" n'] mv off
    by (simp add: Let_def case_prod_beta)
qed

lemma forEach_particle_length:
  "length (fst (forEach_particle random spd dir bounds delta ps i dm im n)) = length ps"
  using forEach_particle_offsets [of random spd dir bounds delta ps i dm im n]
  by (metis length_map)

lemma advance_length:
  "length (particles (advance random spd direction bounds delta st)) = length (particles st)"
proof (cases "mesh st")
  case None
  then show ?thesis by (simp add: advance_def)
next
  case (Some im)
  then show ?thesis
    using forEach_particle_length [of random spd "streamlinesDir direction" bounds delta
            "particles st" 0 "dummy st" im "draws st"]
    by (simp add: advance_def Let_def case_prod_beta)
qed

text \<open>
  C10. A frame update leaves the \<^verbatim>\<open>speedOffset\<close> and \<^verbatim>\<open>sizeOffset\<close> of every
  particle of the pool as they were: the lists of both fields, read off the pool in
  order, are the same before and after \<open>advance\<close>.
\<close>

theorem advance_keeps_offsets:
  "map speedOffset (particles (advance random spd direction bounds delta st)) =
     map speedOffset (particles st) \<and>
   map sizeOffset (particles (advance random spd direction bounds delta st)) =
     map sizeOffset (particles st)"
proof (cases "mesh st")
  case None
  then show ?thesis by (simp add: advance_def)
next
  case (Some im)
  then show ?thesis
    using forEach_particle_offsets [of random spd "streamlinesDir direction" bounds delta
            "particles st" 0 "dummy st" im "draws st"]
    by (simp add: advance_def Let_def case_prod_beta)
qed

subsection \<open>Wrapping at the bounds\<close>

lemma moveParticle_axes:
  fixes m :: real
  assumes m: "m = spd * speedOffset p * delta * 5"
  shows "\<exists>k1 k2 k3.
           px (fst (moveParticle random spd dir bounds delta p n)) =
             wrapped random bounds (vx dir) (px p + vx dir * m) k1 \<and>
           py (fst (moveParticle random spd dir bounds delta p n)) =
             wrapped random bounds (vy dir) (py p + vy dir * m) k2 \<and>
           pz (fst (moveParticle random spd dir bounds delta p n)) =
             wrapped random bounds (vz dir) (pz p + vz dir * m) k3"
  unfolding m moveParticle_def wrapped_def Let_def
  by (simp add: case_prod_beta) blast

lemma moveParticle_draws:
  "n \<le> snd (moveParticle random spd dir bounds delta p n) \<and>
   snd (moveParticle random spd dir bounds delta p n) \<le> n + 3"
  unfolding moveParticle_def Let_def
  by (simp add: case_prod_beta)

lemma forEach_particle_nth:
  "i < length ps \<Longrightarrow>
     \<exists>k. fst (forEach_particle random spd dir bounds delta ps j dm im n) ! i =
           fst (moveParticle random spd dir bounds delta (ps ! i) k)"
proof (induction ps arbitrary: i j dm im n)
  case Nil
  then show ?case by simp
next
  case (Cons p ps)
  show ?case
  proof (cases i)
    case 0
    then show ?thesis
      by (auto simp: Let_def case_prod_beta)
  next
    case (Suc i')
    then have "i' < length ps" using Cons.prems by simp
    from Cons.IH [OF this] show ?thesis
      using Suc by (simp add: Let_def case_prod_beta)
  qed
qed

lemma forEach_particle_draws:
  "snd (snd (snd (forEach_particle random spd dir bounds delta ps j dm im n))) \<le>
     n + 3 * length ps"
proof (induction ps arbitrary: j dm im n)
  case Nil
  show ?case by simp
next
  case (Cons p ps)
  let ?mv = "moveParticle random spd dir bounds delta p n"
  have a: "snd ?mv \<le> n + 3"
    using moveParticle_draws [of n random spd dir bounds delta p] by simp
  have b: "snd (snd (snd (forEach_particle random spd dir bounds delta ps (Suc j)
              (placeDummy spd dir (fst ?mv) dm)
              (im[j := matrix (placeDummy spd dir (fst ?mv) dm)]) (snd ?mv)))) \<le>
           snd ?mv + 3 * length ps"
    by (rule Cons.IH)
  show ?case
    using a b by (simp add: Let_def case_prod_beta)
qed

lemma wrapped_cases:
  assumes "unit_random random" and "0 \<le> bounds"
    and v: "v = wrapped random bounds d c k"
  shows "(\<bar>c\<bar> > bounds / 2 \<and> \<bar>d\<bar> > 0.1 \<longrightarrow>
            (\<exists>k. v = - sgn d * (bounds / 2) + (random k * 10 - 5) \<and>
                 - 5 \<le> random k * 10 - 5 \<and> random k * 10 - 5 \<le> 5)) \<and>
         (\<bar>c\<bar> > bounds / 2 \<and> \<not> \<bar>d\<bar> > 0.1 \<longrightarrow>
            (\<exists>k. v = (random k - 0.5) * bounds) \<and>
            - (bounds / 2) \<le> v \<and> v \<le> bounds / 2) \<and>
         (\<bar>c\<bar> \<le> bounds / 2 \<longrightarrow> v = c)"
proof -
  have r: "0 \<le> random k \<and> random k < 1"
    using assms(1) by (simp add: unit_random_def)
  have j: "- 5 \<le> random k * 10 - 5 \<and> random k * 10 - 5 \<le> 5"
    using r by simp
  have lo: "- (bounds / 2) \<le> (random k - 0.5) * bounds"
  proof -
    have "0 \<le> random k * bounds" using r assms(2) by simp
    then show ?thesis by (simp add: algebra_simps)
  qed
  have hi: "(random k - 0.5) * bounds \<le> bounds / 2"
  proof -
    have "random k * bounds \<le> 1 * bounds"
      using r assms(2) by (intro mult_right_mono) simp_all
    then show ?thesis by (simp add: algebra_simps)
  qed
  have a: "\<bar>c\<bar> > bounds / 2 \<and> \<bar>d\<bar> > 0.1 \<longrightarrow>
            (\<exists>k. v = - sgn d * (bounds / 2) + (random k * 10 - 5) \<and>
                 - 5 \<le> random k * 10 - 5 \<and> random k * 10 - 5 \<le> 5)"
  proof
    assume h: "\<bar>c\<bar> > bounds / 2 \<and> \<bar>d\<bar> > 0.1"
    then have "v = - sgn d * (bounds / 2) + (random k * 10 - 5)"
      unfolding v wrapped_def by simp
    with j show "\<exists>k. v = - sgn d * (bounds / 2) + (random k * 10 - 5) \<and>
                 - 5 \<le> random k * 10 - 5 \<and> random k * 10 - 5 \<le> 5"
      by blast
  qed
  have b: "\<bar>c\<bar> > bounds / 2 \<and> \<not> \<bar>d\<bar> > 0.1 \<longrightarrow>
            (\<exists>k. v = (random k - 0.5) * bounds) \<and>
            - (bounds / 2) \<le> v \<and> v \<le> bounds / 2"
  proof
    assume h: "\<bar>c\<bar> > bounds / 2 \<and> \<not> \<bar>d\<bar> > 0.1"
    then have e: "v = (random k - 0.5) * bounds"
      unfolding v wrapped_def by simp
    then have "\<exists>k. v = (random k - 0.5) * bounds" by blast
    with e lo hi show "(\<exists>k. v = (random k - 0.5) * bounds) \<and>
            - (bounds / 2) \<le> v \<and> v \<le> bounds / 2"
      by simp
  qed
  have c: "\<bar>c\<bar> \<le> bounds / 2 \<longrightarrow> v = c"
    unfolding v wrapped_def by simp
  show ?thesis
    using a b c by blast
qed

text \<open>
  C6. In a frame drawn with an attached mesh, with every random number in \<open>[0, 1)\<close> and
  \<open>bounds \<ge> 0\<close>, for the \<open>i\<close>-th particle \<open>p\<close> and each axis: when the advected
  coordinate exceeds \<open>bounds / 2\<close> in absolute value, the new coordinate is
  \<open>- sgn d * bounds / 2\<close> plus a jitter \<open>random k * 10 - 5\<close> in \<open>[-5, 5]\<close> if the wind
  component \<open>d\<close> on that axis has magnitude above 0.1, and \<open>(random k - 0.5) * bounds\<close>,
  within \<open>[- bounds / 2, bounds / 2]\<close>, otherwise; a coordinate within the bounds keeps
  its advected value. The frame draws at most three random numbers for each particle,
  one for each axis that left the bounds.
\<close>

theorem wrap_respawn_each_axis:
  fixes m :: real
  assumes "unit_random random" and "0 \<le> bounds"
    and "mesh st = Some im" and "i < length (particles st)"
    and dir_def: "dir = streamlinesDir direction"
    and p_def: "p = particles st ! i"
    and p'_def: "p' = particles (advance random spd direction bounds delta st) ! i"
    and m_def: "m = spd * speedOffset p * delta * 5"
  shows "(\<bar>px p + vx dir * m\<bar> > bounds / 2 \<and> \<bar>vx dir\<bar> > 0.1 \<longrightarrow>
            (\<exists>k. px p' = - sgn (vx dir) * (bounds / 2) + (random k * 10 - 5) \<and>
                 - 5 \<le> random k * 10 - 5 \<and> random k * 10 - 5 \<le> 5)) \<and>
         (\<bar>px p + vx dir * m\<bar> > bounds / 2 \<and> \<not> \<bar>vx dir\<bar> > 0.1 \<longrightarrow>
            (\<exists>k. px p' = (random k - 0.5) * bounds) \<and>
            - (bounds / 2) \<le> px p' \<and> px p' \<le> bounds / 2) \<and>
         (\<bar>px p + vx dir * m\<bar> \<le> bounds / 2 \<longrightarrow> px p' = px p + vx dir * m) \<and>
         (\<bar>py p + vy dir * m\<bar> > bounds / 2 \<and> \<bar>vy dir\<bar> > 0.1 \<longrightarrow>
            (\<exists>k. py p' = - sgn (vy dir) * (bounds / 2) + (random k * 10 - 5) \<and>
                 - 5 \<le> random k * 10 - 5 \<and> random k * 10 - 5 \<le> 5)) \<and>
         (\<bar>py p + vy dir * m\<bar> > bounds / 2 \<and> \<not> \<bar>vy dir\<bar> > 0.1 \<longrightarrow>
            (\<exists>k. py p' = (random k - 0.5) * bounds) \<and>
            - (bounds / 2) \<le> py p' \<and> py p' \<le> bounds / 2) \<and>
         (\<bar>py p + vy dir * m\<bar> \<le> bounds / 2 \<longrightarrow> py p' = py p + vy dir * m) \<and>
         (\<bar>pz p + vz dir * m\<bar> > bounds / 2 \<and> \<bar>vz dir\<bar> > 0.1 \<longrightarrow>
            (\<exists>k. pz p' = - sgn (vz dir) * (bounds / 2) + (random k * 10 - 5) \<and>
                 - 5 \<le> random k * 10 - 5 \<and> random k * 10 - 5 \<le> 5)) \<and>
         (\<bar>pz p + vz dir * m\<bar> > bounds / 2 \<and> \<not> \<bar>vz dir\<bar> > 0.1 \<longrightarrow>
            (\<exists>k. pz p' = (random k - 0.5) * bounds) \<and>
            - (bounds / 2) \<le> pz p' \<and> pz p' \<le> bounds / 2) \<and>
         (\<bar>pz p + vz dir * m\<bar> \<le> bounds / 2 \<longrightarrow> pz p' = pz p + vz dir * m) \<and>
         draws (advance random spd direction bounds delta st) \<le>
           draws st + 3 * length (particles st)"
proof -
  let ?fe = "forEach_particle random spd dir bounds delta (particles st) 0 (dummy st) im
               (draws st)"
  have ps: "particles (advance random spd direction bounds delta st) = fst ?fe"
    using assms(3) by (simp add: advance_def dir_def Let_def case_prod_beta)
  have dr: "draws (advance random spd direction bounds delta st) = snd (snd (snd ?fe))"
    using assms(3) by (simp add: advance_def dir_def Let_def case_prod_beta)
  obtain k where k: "p' = fst (moveParticle random spd dir bounds delta p k)"
    using forEach_particle_nth [OF assms(4), of random spd dir bounds delta 0 "dummy st" im
            "draws st"] ps
    unfolding p'_def p_def by auto
  obtain k1 k2 k3 where
    x: "px p' = wrapped random bounds (vx dir) (px p + vx dir * m) k1" and
    y: "py p' = wrapped random bounds (vy dir) (py p + vy dir * m) k2" and
    z: "pz p' = wrapped random bounds (vz dir) (pz p + vz dir * m) k3"
    using moveParticle_axes [of m spd p delta random dir bounds k] k m_def by auto
  have d: "draws (advance random spd direction bounds delta st) \<le>
             draws st + 3 * length (particles st)"
    unfolding dr by (rule forEach_particle_draws)
  have cx: "(\<bar>px p + vx dir * m\<bar> > bounds / 2 \<and> \<bar>vx dir\<bar> > 0.1 \<longrightarrow>
            (\<exists>k. px p' = - sgn (vx dir) * (bounds / 2) + (random k * 10 - 5) \<and>
                 - 5 \<le> random k * 10 - 5 \<and> random k * 10 - 5 \<le> 5)) \<and>
         (\<bar>px p + vx dir * m\<bar> > bounds / 2 \<and> \<not> \<bar>vx dir\<bar> > 0.1 \<longrightarrow>
            (\<exists>k. px p' = (random k - 0.5) * bounds) \<and>
            - (bounds / 2) \<le> px p' \<and> px p' \<le> bounds / 2) \<and>
         (\<bar>px p + vx dir * m\<bar> \<le> bounds / 2 \<longrightarrow> px p' = px p + vx dir * m)"
    by (rule wrapped_cases [OF assms(1,2) x])
  have cy: "(\<bar>py p + vy dir * m\<bar> > bounds / 2 \<and> \<bar>vy dir\<bar> > 0.1 \<longrightarrow>
            (\<exists>k. py p' = - sgn (vy dir) * (bounds / 2) + (random k * 10 - 5) \<and>
                 - 5 \<le> random k * 10 - 5 \<and> random k * 10 - 5 \<le> 5)) \<and>
         (\<bar>py p + vy dir * m\<bar> > bounds / 2 \<and> \<not> \<bar>vy dir\<bar> > 0.1 \<longrightarrow>
            (\<exists>k. py p' = (random k - 0.5) * bounds) \<and>
            - (bounds / 2) \<le> py p' \<and> py p' \<le> bounds / 2) \<and>
         (\<bar>py p + vy dir * m\<bar> \<le> bounds / 2 \<longrightarrow> py p' = py p + vy dir * m)"
    by (rule wrapped_cases [OF assms(1,2) y])
  have cz: "(\<bar>pz p + vz dir * m\<bar> > bounds / 2 \<and> \<bar>vz dir\<bar> > 0.1 \<longrightarrow>
            (\<exists>k. pz p' = - sgn (vz dir) * (bounds / 2) + (random k * 10 - 5) \<and>
                 - 5 \<le> random k * 10 - 5 \<and> random k * 10 - 5 \<le> 5)) \<and>
         (\<bar>pz p + vz dir * m\<bar> > bounds / 2 \<and> \<not> \<bar>vz dir\<bar> > 0.1 \<longrightarrow>
            (\<exists>k. pz p' = (random k - 0.5) * bounds) \<and>
            - (bounds / 2) \<le> pz p' \<and> pz p' \<le> bounds / 2) \<and>
         (\<bar>pz p + vz dir * m\<bar> \<le> bounds / 2 \<longrightarrow> pz p' = pz p + vz dir * m)"
    by (rule wrapped_cases [OF assms(1,2) z])
  show ?thesis
    using cx cy cz d by blast
qed

lemma streamlinesDir_plusX: "streamlinesDir (Vector3 1 0 0) = Vector3 1 0 0"
  by (simp add: streamlinesDir_def normalize3_def length3_def lengthSq_def divideScalar_def
      multiplyScalar_def)

theorem wrap_respawn_witness:
  "unit_random (\<lambda>k. 1 / 2) \<and>
   (\<exists>k. px (particles (advance (\<lambda>k. 1 / 2) 20 (Vector3 1 0 0) 150 0
            \<lparr>deps = (1, 150),
             particles = [\<lparr>px = 76, py = 80, pz = 0, speedOffset = 1, sizeOffset = 1\<rparr>],
             dummy = new_Object3D, mesh = Some [], draws = 0\<rparr>) ! 0) =
        - 75 + ((\<lambda>k. 1 / 2) k * 10 - 5)) \<and>
   \<bar>py (particles (advance (\<lambda>k. 1 / 2) 20 (Vector3 1 0 0) 150 0
            \<lparr>deps = (1, 150),
             particles = [\<lparr>px = 76, py = 80, pz = 0, speedOffset = 1, sizeOffset = 1\<rparr>],
             dummy = new_Object3D, mesh = Some [], draws = 0\<rparr>) ! 0)\<bar> \<le> 75 \<and>
   pz (particles (advance (\<lambda>k. 1 / 2) 20 (Vector3 1 0 0) 150 0
            \<lparr>deps = (1, 150),
             particles = [\<lparr>px = 76, py = 80, pz = 0, speedOffset = 1, sizeOffset = 1\<rparr>],
             dummy = new_Object3D, mesh = Some [], draws = 0\<rparr>) ! 0) = 0"
proof -
  let ?st = "\<lparr>deps = (1, 150),
             particles = [\<lparr>px = 76, py = 80, pz = 0, speedOffset = 1, sizeOffset = 1\<rparr>],
             dummy = new_Object3D, mesh = Some [], draws = 0\<rparr>"
  have u: "unit_random (\<lambda>k. 1 / 2)"
    by (simp add: unit_random_def)
  have b: "(0::real) \<le> 150" by simp
  have m: "mesh ?st = Some []" by simp
  have i: "0 < length (particles ?st)" by simp
  show ?thesis
    using u wrap_respawn_each_axis [OF u b m i streamlinesDir_plusX [symmetric] refl refl refl,
        of 20 0]
    by simp
qed

subsection \<open>The size of the pool\<close>

lemma initLoop_length:
  "length (fst (initLoop random count bounds i temp n)) = length temp + nat (count - i)"
proof (induction random count bounds i temp n rule: initLoop.induct)
  case (1 random count bounds i temp n)
  show ?case
  proof (cases "i < count")
    case True
    then show ?thesis
      using "1.IH" [OF True] by (subst initLoop.simps) (simp add: nat_diff_distrib')
  next
    case False
    then show ?thesis by (subst initLoop.simps) simp
  qed
qed

lemma initLoop_draws:
  "snd (initLoop random count bounds i temp n) = n + 5 * nat (count - i)"
proof (induction random count bounds i temp n rule: initLoop.induct)
  case (1 random count bounds i temp n)
  show ?case
  proof (cases "i < count")
    case True
    then show ?thesis
      using "1.IH" [OF True] by (subst initLoop.simps) (simp add: nat_diff_distrib')
  next
    case False
    then show ?thesis by (subst initLoop.simps) simp
  qed
qed

lemma fresh_inside:
  assumes "unit_random random" and "0 \<le> bounds"
  shows "\<bar>(random k - 0.5) * bounds\<bar> \<le> bounds / 2"
proof -
  have r: "0 \<le> random k \<and> random k < 1"
    using assms(1) by (simp add: unit_random_def)
  have "\<bar>(random k - 0.5) * bounds\<bar> = \<bar>random k - 0.5\<bar> * bounds"
    using assms(2) by (simp add: abs_mult)
  also have "\<dots> \<le> 0.5 * bounds"
  proof (rule mult_right_mono)
    show "\<bar>random k - 0.5\<bar> \<le> 0.5" using r by linarith
    show "0 \<le> bounds" by (rule assms(2))
  qed
  finally show ?thesis by simp
qed

lemma initLoop_inside:
  "unit_random random \<Longrightarrow> 0 \<le> bounds \<Longrightarrow> list_all (inside_bounds bounds) temp \<Longrightarrow>
     list_all (inside_bounds bounds) (fst (initLoop random count bounds i temp n))"
proof (induction random count bounds i temp n rule: initLoop.induct)
  case (1 random count bounds i temp n)
  note u = "1.prems"(1) and b = "1.prems"(2)
  show ?case
  proof (cases "i < count")
    case True
    have "inside_bounds bounds
            \<lparr>px = (random n - 0.5) * bounds,
             py = (random (n + 1) - 0.5) * bounds,
             pz = (random (n + 2) - 0.5) * bounds,
             speedOffset = random (n + 3) * 0.5 + 0.8,
             sizeOffset = random (n + 4) * 0.5 + 0.5\<rparr>"
      using fresh_inside [OF u b, of n] fresh_inside [OF u b, of "n + 1"]
        fresh_inside [OF u b, of "n + 2"]
      by (simp add: inside_bounds_def)
    then have "list_all (inside_bounds bounds)
            (temp @ [\<lparr>px = (random n - 0.5) * bounds,
                      py = (random (n + 1) - 0.5) * bounds,
                      pz = (random (n + 2) - 0.5) * bounds,
                      speedOffset = random (n + 3) * 0.5 + 0.8,
                      sizeOffset = random (n + 4) * 0.5 + 0.5\<rparr>])"
      using "1.prems"(3) by simp
    from "1.IH" [OF True u b this] show ?thesis
      using True by (subst initLoop.simps) simp
  next
    case False
    then show ?thesis using "1.prems"(3) by (subst initLoop.simps) simp
  qed
qed

lemma initParticles_length:
  "0 \<le> count \<Longrightarrow> int (length (fst (initParticles random count bounds n))) = count"
  by (simp add: initParticles_def initLoop_length)

lemma initParticles_draws:
  "snd (initParticles random count bounds n) = n + 5 * nat count"
  by (simp add: initParticles_def initLoop_draws)

lemma initParticles_inside:
  "unit_random random \<Longrightarrow> 0 \<le> bounds \<Longrightarrow>
     list_all (inside_bounds bounds) (fst (initParticles random count bounds n))"
  unfolding initParticles_def by (rule initLoop_inside) simp_all

lemma initLoop_prefix:
  "j < length temp \<Longrightarrow> fst (initLoop random count bounds i temp n) ! j = temp ! j"
proof (induction random count bounds i temp n rule: initLoop.induct)
  case (1 random count bounds i temp n)
  show ?case
  proof (cases "i < count")
    case True
    have "j < length (temp @ [\<lparr>px = (random n - 0.5) * bounds,
                    py = (random (n + 1) - 0.5) * bounds,
                    pz = (random (n + 2) - 0.5) * bounds,
                    speedOffset = random (n + 3) * 0.5 + 0.8,
                    sizeOffset = random (n + 4) * 0.5 + 0.5\<rparr>])"
      using "1.prems" by simp
    from "1.IH" [OF True this] show ?thesis
      using True "1.prems" by (subst initLoop.simps) (simp add: nth_append)
  next
    case False
    then show ?thesis by (subst initLoop.simps) simp
  qed
qed

lemma initLoop_nth:
  "length temp \<le> j \<Longrightarrow> j < length temp + nat (count - i) \<Longrightarrow>
     fst (initLoop random count bounds i temp n) ! j =
       \<lparr>px = (random (n + 5 * (j - length temp)) - 0.5) * bounds,
        py = (random (n + 5 * (j - length temp) + 1) - 0.5) * bounds,
        pz = (random (n + 5 * (j - length temp) + 2) - 0.5) * bounds,
        speedOffset = random (n + 5 * (j - length temp) + 3) * 0.5 + 0.8,
        sizeOffset = random (n + 5 * (j - length temp) + 4) * 0.5 + 0.5\<rparr>"
proof (induction random count bounds i temp n rule: initLoop.induct)
  case (1 random count bounds i temp n)
  let ?p = "\<lparr>px = (random n - 0.5) * bounds,
                    py = (random (n + 1) - 0.5) * bounds,
                    pz = (random (n + 2) - 0.5) * bounds,
                    speedOffset = random (n + 3) * 0.5 + 0.8,
                    sizeOffset = random (n + 4) * 0.5 + 0.5\<rparr>"
  have lt: "i < count"
    using "1.prems" by (cases "i < count") simp_all
  have unfold: "initLoop random count bounds i temp n =
                initLoop random count bounds (i + 1) (temp @ [?p]) (n + 5)"
    using lt by (subst initLoop.simps) simp
  show ?case
  proof (cases "j = length temp")
    case True
    have "fst (initLoop random count bounds (i + 1) (temp @ [?p]) (n + 5)) ! j =
          (temp @ [?p]) ! j"
      using True by (intro initLoop_prefix) simp
    then show ?thesis
      unfolding unfold using True by simp
  next
    case False
    then have a: "length (temp @ [?p]) \<le> j"
      using "1.prems"(1) by simp
    have b: "j < length (temp @ [?p]) + nat (count - (i + 1))"
      using "1.prems"(2) lt by simp
    have k: "n + 5 + 5 * (j - length (temp @ [?p])) = n + 5 * (j - length temp)"
      using a by simp
    show ?thesis
      unfolding unfold
      using "1.IH" [OF lt a b] unfolding k by simp
  qed
qed

lemma initParticles_nth:
  "i < nat count \<Longrightarrow>
     fst (initParticles random count bounds n) ! i =
       \<lparr>px = (random (n + 5 * i) - 0.5) * bounds,
        py = (random (n + 5 * i + 1) - 0.5) * bounds,
        pz = (random (n + 5 * i + 2) - 0.5) * bounds,
        speedOffset = random (n + 5 * i + 3) * 0.5 + 0.8,
        sizeOffset = random (n + 5 * i + 4) * 0.5 + 0.5\<rparr>"
  using initLoop_nth [of "[]" i count 0 random bounds n]
  by (simp add: initParticles_def)

lemma mount_Streamlines_fields:
  "deps (mount_Streamlines random count bounds n) = (count, bounds) \<and>
   particles (mount_Streamlines random count bounds n) =
     fst (initParticles random count bounds n) \<and>
   draws (mount_Streamlines random count bounds n) =
     snd (initParticles random count bounds n)"
  by (simp add: mount_Streamlines_def case_prod_beta)

lemma useMemo_particles_changed:
  "deps st \<noteq> (count, bounds) \<Longrightarrow>
     deps (useMemo_particles random count bounds st) = (count, bounds) \<and>
     particles (useMemo_particles random count bounds st) =
       fst (initParticles random count bounds (draws st)) \<and>
     draws (useMemo_particles random count bounds st) =
       snd (initParticles random count bounds (draws st))"
  by (simp add: useMemo_particles_def case_prod_beta)

lemma useMemo_particles_deps:
  "deps (useMemo_particles random count bounds st) = (count, bounds)"
  by (simp add: useMemo_particles_def case_prod_beta)

lemma advance_deps: "deps (advance random spd direction bounds delta st) = deps st"
  by (cases "mesh st") (simp_all add: advance_def Let_def case_prod_beta)


lemma step_pool_sized:
  assumes "pool_sized st" and "count_nonneg e"
  shows "pool_sized (Streamlines_step random st e)"
proof (cases e)
  case (Render count bounds)
  show ?thesis
  proof (cases "deps st = (count, bounds)")
    case True
    then show ?thesis
      using assms(1) Render by (simp add: useMemo_particles_def)
  next
    case False
    have "0 \<le> count"
      using assms(2) Render by (simp add: count_nonneg_def)
    then show ?thesis
      using useMemo_particles_changed [OF False, of random] Render
      by (simp add: pool_sized_def initParticles_length)
  qed
next
  case (Attach im)
  then show ?thesis
    using assms(1) by (simp add: pool_sized_def)
next
  case (Frame spd direction delta)
  then show ?thesis
    using assms(1) by (simp add: pool_sized_def advance_length advance_deps)
qed

lemma run_pool_sized:
  "pool_sized st \<Longrightarrow> list_all count_nonneg evs \<Longrightarrow>
     pool_sized (Streamlines_run random st evs)"
proof (induction evs arbitrary: st)
  case Nil
  then show ?case by (simp add: Streamlines_run_def)
next
  case (Cons e evs)
  have "pool_sized (Streamlines_step random st e)"
    using Cons.prems by (intro step_pool_sized) simp_all
  then have "pool_sized (Streamlines_run random (Streamlines_step random st e) evs)"
    using Cons.prems by (intro Cons.IH) simp_all
  then show ?case by (simp add: Streamlines_run_def)
qed

text \<open>
  C8. With every random number in \<open>[0, 1)\<close>, \<open>bounds \<ge> 0\<close> and counts that are not
  negative: the pool created at the first render has exactly \<open>count\<close> particles, all
  inside the cube of side \<open>bounds\<close>; a frame keeps the number of particles; after any
  sequence of renders, attachments and frames the pool has as many particles as the
  last render asked for; and a render whose \<open>count\<close> or \<open>bounds\<close> differ from the
  memoised ones replaces the pool by the one the initialisation loop builds from fresh
  random numbers, which does not depend on the particles that were there. Every particle
  of a new pool is randomized: the \<open>i\<close>-th one takes its position, its speed offset and
  its size offset from five random numbers of its own, drawn after all earlier ones.
\<close>

theorem pool_holds_particleCount:
  assumes "unit_random random" and "0 \<le> bounds" and "0 \<le> count"
    and "list_all count_nonneg evs"
  shows "int (length (particles (mount_Streamlines random count bounds n))) = count \<and>
         list_all (inside_bounds bounds) (particles (mount_Streamlines random count bounds n)) \<and>
         length (particles (advance random spd direction bounds delta st)) =
           length (particles st) \<and>
         int (length (particles
                (Streamlines_run random (mount_Streamlines random count bounds n) evs))) =
           fst (deps (Streamlines_run random (mount_Streamlines random count bounds n) evs)) \<and>
         (deps st \<noteq> (count, bounds) \<longrightarrow>
            particles (useMemo_particles random count bounds st) =
              fst (initParticles random count bounds (draws st)) \<and>
            int (length (particles (useMemo_particles random count bounds st))) = count \<and>
            list_all (inside_bounds bounds)
              (particles (useMemo_particles random count bounds st)) \<and>
            draws (useMemo_particles random count bounds st) = draws st + 5 * nat count) \<and>
         fst (deps (Streamlines_run random st (evs @ [Render count bounds]))) = count \<and>
         (i < nat count \<longrightarrow>
            particles (mount_Streamlines random count bounds n) ! i =
              \<lparr>px = (random (n + 5 * i) - 0.5) * bounds,
               py = (random (n + 5 * i + 1) - 0.5) * bounds,
               pz = (random (n + 5 * i + 2) - 0.5) * bounds,
               speedOffset = random (n + 5 * i + 3) * 0.5 + 0.8,
               sizeOffset = random (n + 5 * i + 4) * 0.5 + 0.5\<rparr>) \<and>
         (deps st \<noteq> (count, bounds) \<and> i < nat count \<longrightarrow>
            particles (useMemo_particles random count bounds st) ! i =
              \<lparr>px = (random (draws st + 5 * i) - 0.5) * bounds,
               py = (random (draws st + 5 * i + 1) - 0.5) * bounds,
               pz = (random (draws st + 5 * i + 2) - 0.5) * bounds,
               speedOffset = random (draws st + 5 * i + 3) * 0.5 + 0.8,
               sizeOffset = random (draws st + 5 * i + 4) * 0.5 + 0.5\<rparr>)"
proof -
  have a: "int (length (particles (mount_Streamlines random count bounds n))) = count"
    using assms(3) by (simp add: mount_Streamlines_fields initParticles_length)
  have b: "list_all (inside_bounds bounds)
             (particles (mount_Streamlines random count bounds n))"
    using assms(1,2) by (simp add: mount_Streamlines_fields initParticles_inside)
  have "pool_sized (mount_Streamlines random count bounds n)"
    using a by (simp add: pool_sized_def mount_Streamlines_fields)
  then have "pool_sized (Streamlines_run random (mount_Streamlines random count bounds n) evs)"
    using assms(4) by (rule run_pool_sized)
  then have c: "int (length (particles
                (Streamlines_run random (mount_Streamlines random count bounds n) evs))) =
           fst (deps (Streamlines_run random (mount_Streamlines random count bounds n) evs))"
    by (simp add: pool_sized_def)
  have d: "deps st \<noteq> (count, bounds) \<longrightarrow>
            particles (useMemo_particles random count bounds st) =
              fst (initParticles random count bounds (draws st)) \<and>
            int (length (particles (useMemo_particles random count bounds st))) = count \<and>
            list_all (inside_bounds bounds)
              (particles (useMemo_particles random count bounds st)) \<and>
            draws (useMemo_particles random count bounds st) = draws st + 5 * nat count"
  proof
    assume h: "deps st \<noteq> (count, bounds)"
    show "particles (useMemo_particles random count bounds st) =
              fst (initParticles random count bounds (draws st)) \<and>
            int (length (particles (useMemo_particles random count bounds st))) = count \<and>
            list_all (inside_bounds bounds)
              (particles (useMemo_particles random count bounds st)) \<and>
            draws (useMemo_particles random count bounds st) = draws st + 5 * nat count"
      using useMemo_particles_changed [OF h, of random] assms(1,2,3)
      by (simp add: initParticles_length initParticles_inside initParticles_draws)
  qed
  have e: "fst (deps (Streamlines_run random st (evs @ [Render count bounds]))) = count"
    by (simp add: Streamlines_run_def useMemo_particles_deps)
  have f: "i < nat count \<longrightarrow>
            particles (mount_Streamlines random count bounds n) ! i =
              \<lparr>px = (random (n + 5 * i) - 0.5) * bounds,
               py = (random (n + 5 * i + 1) - 0.5) * bounds,
               pz = (random (n + 5 * i + 2) - 0.5) * bounds,
               speedOffset = random (n + 5 * i + 3) * 0.5 + 0.8,
               sizeOffset = random (n + 5 * i + 4) * 0.5 + 0.5\<rparr>"
    using initParticles_nth [of i count random bounds n]
    by (simp add: mount_Streamlines_fields)
  have g: "deps st \<noteq> (count, bounds) \<and> i < nat count \<longrightarrow>
            particles (useMemo_particles random count bounds st) ! i =
              \<lparr>px = (random (draws st + 5 * i) - 0.5) * bounds,
               py = (random (draws st + 5 * i + 1) - 0.5) * bounds,
               pz = (random (draws st + 5 * i + 2) - 0.5) * bounds,
               speedOffset = random (draws st + 5 * i + 3) * 0.5 + 0.8,
               sizeOffset = random (draws st + 5 * i + 4) * 0.5 + 0.5\<rparr>"
  proof
    assume h: "deps st \<noteq> (count, bounds) \<and> i < nat count"
    then have "particles (useMemo_particles random count bounds st) =
               fst (initParticles random count bounds (draws st))"
      using useMemo_particles_changed [of st count bounds random] by blast
    then show "particles (useMemo_particles random count bounds st) ! i =
              \<lparr>px = (random (draws st + 5 * i) - 0.5) * bounds,
               py = (random (draws st + 5 * i + 1) - 0.5) * bounds,
               pz = (random (draws st + 5 * i + 2) - 0.5) * bounds,
               speedOffset = random (draws st + 5 * i + 3) * 0.5 + 0.8,
               sizeOffset = random (draws st + 5 * i + 4) * 0.5 + 0.5\<rparr>"
      using h initParticles_nth [of i count random bounds "draws st"] by simp
  qed
  show ?thesis
    using a b c d e f g advance_length [of random spd direction bounds delta st] by blast
qed

theorem pool_holds_particleCount_witness:
  "unit_random (\<lambda>k. 1 / (real k + 2)) \<and>
   list_all count_nonneg [Attach [], Frame 20 (Vector3 1 0 0) 1, Render 3 150] \<and>
   int (length (particles (mount_Streamlines (\<lambda>k. 1 / (real k + 2)) 2 150 0))) = 2 \<and>
   int (length (particles
     (Streamlines_run (\<lambda>k. 1 / (real k + 2))
        (mount_Streamlines (\<lambda>k. 1 / (real k + 2)) 2 150 0)
        [Attach [], Frame 20 (Vector3 1 0 0) 1, Render 3 150]))) = 3 \<and>
   deps (mount_Streamlines (\<lambda>k. 1 / (real k + 2)) 5 150 0) \<noteq> (2, 150) \<and>
   int (length (particles
     (useMemo_particles (\<lambda>k. 1 / (real k + 2)) 2 150
        (mount_Streamlines (\<lambda>k. 1 / (real k + 2)) 5 150 0)))) = 2 \<and>
   (1::nat) < nat 2 \<and>
   particles (mount_Streamlines (\<lambda>k. 1 / (real k + 2)) 2 150 0) ! 1 =
     \<lparr>px = (1 / 7 - 1 / 2) * 150, py = (1 / 8 - 1 / 2) * 150, pz = (1 / 9 - 1 / 2) * 150,
      speedOffset = 1 / 10 * (1 / 2) + 8 / 10, sizeOffset = 1 / 11 * (1 / 2) + 1 / 2\<rparr> \<and>
   px (particles (useMemo_particles (\<lambda>k. 1 / (real k + 2)) 2 150
        (mount_Streamlines (\<lambda>k. 1 / (real k + 2)) 5 150 0)) ! 1) = (1 / 32 - 1 / 2) * 150"
proof -
  let ?r = "\<lambda>k. 1 / (real k + 2)"
  have u: "unit_random ?r"
    by (simp add: unit_random_def)
  have b: "(0::real) \<le> 150" by simp
  have c: "(0::int) \<le> 2" by simp
  have l: "list_all count_nonneg [Attach [], Frame 20 (Vector3 1 0 0) 1, Render 3 150]"
    by (simp add: count_nonneg_def)
  have d: "deps (Streamlines_run ?r (mount_Streamlines ?r 2 150 0)
          [Attach [], Frame 20 (Vector3 1 0 0) 1, Render 3 150]) = (3, 150)"
    by (simp add: Streamlines_run_def useMemo_particles_deps)
  have n: "deps (mount_Streamlines ?r 5 150 0) \<noteq> (2, 150)"
    by (simp add: mount_Streamlines_fields)
  have dr: "draws (mount_Streamlines ?r 5 150 0) = 25"
    by (simp add: mount_Streamlines_fields initParticles_draws)
  have i: "(1::nat) < nat 2" by simp
  note t = pool_holds_particleCount [OF u b c l, where n = 0
        and st = "mount_Streamlines ?r 5 150 0"
        and spd = 20 and direction = "Vector3 1 0 0" and delta = 1 and i = 1]
  have x: "int (length (particles (mount_Streamlines ?r 2 150 0))) = 2"
    using t by blast
  have y: "int (length (particles
     (Streamlines_run ?r (mount_Streamlines ?r 2 150 0)
        [Attach [], Frame 20 (Vector3 1 0 0) 1, Render 3 150]))) = 3"
    using t d by simp
  have z: "int (length (particles
     (useMemo_particles ?r 2 150 (mount_Streamlines ?r 5 150 0)))) = 2"
    using t n by blast
  have f: "particles (mount_Streamlines ?r 2 150 0) ! 1 =
     \<lparr>px = (1 / 7 - 1 / 2) * 150, py = (1 / 8 - 1 / 2) * 150, pz = (1 / 9 - 1 / 2) * 150,
      speedOffset = 1 / 10 * (1 / 2) + 8 / 10, sizeOffset = 1 / 11 * (1 / 2) + 1 / 2\<rparr>"
    using t i by simp
  have "particles (useMemo_particles ?r 2 150 (mount_Streamlines ?r 5 150 0)) ! 1 =
          \<lparr>px = (?r (draws (mount_Streamlines ?r 5 150 0) + 5 * 1) - 0.5) * 150,
           py = (?r (draws (mount_Streamlines ?r 5 150 0) + 5 * 1 + 1) - 0.5) * 150,
           pz = (?r (draws (mount_Streamlines ?r 5 150 0) + 5 * 1 + 2) - 0.5) * 150,
           speedOffset = ?r (draws (mount_Streamlines ?r 5 150 0) + 5 * 1 + 3) * 0.5 + 0.8,
           sizeOffset = ?r (draws (mount_Streamlines ?r 5 150 0) + 5 * 1 + 4) * 0.5 + 0.5\<rparr>"
    using t n i by blast
  then have g: "px (particles (useMemo_particles ?r 2 150 (mount_Streamlines ?r 5 150 0)) ! 1) =
           (1 / 32 - 1 / 2) * 150"
    by (simp add: dr)
  show ?thesis
    using u l n x y z i f g by blast
qed

subsection \<open>The colour of the wake\<close>

text \<open>
  C5. Where the adjusted intensity is at most \<open>-0.2\<close>, the colour is the Low colour
  \<open>(0, 0.5, 1)\<close> times \<open>0.6 + flowEffect\<close> on each channel, with no other colour mixed
  in; \<open>flowEffect\<close> is \<open>sin (dot P W * 0.5 - t * 10) * 0.05\<close> for the normalised wind
  direction \<open>W\<close>, the very value the ripple of the other branch adds to the
  intensity; and the alpha of every fragment is 1.
\<close>

theorem wake_color_is_scaled_low:
  assumes "adjustedIntensity vNormal vWorldPosition uWindDir uTime \<le> - 0.2"
  shows "fragmentShader vNormal vWorldPosition uWindDir uTime =
           (multiplyScalar uColorLow (0.6 + flowEffect vWorldPosition uWindDir uTime), 1) \<and>
         fst (fragmentShader vNormal vWorldPosition uWindDir uTime) =
           Vector3 0 (0.5 * (0.6 + flowEffect vWorldPosition uWindDir uTime))
                     (0.6 + flowEffect vWorldPosition uWindDir uTime) \<and>
         flowEffect vWorldPosition uWindDir uTime =
           sin (dot vWorldPosition (glsl_normalize uWindDir) * 0.5 - uTime * 10) * 0.05 \<and>
         (length3 uWindDir = 1 \<longrightarrow>
            flowEffect vWorldPosition uWindDir uTime =
              sin (dot vWorldPosition uWindDir * 0.5 - uTime * 10) * 0.05) \<and>
         adjustedIntensity vNormal vWorldPosition uWindDir uTime =
           (if intensity vNormal uWindDir < - 0.2
            then intensity vNormal uWindDir + turbulence vWorldPosition uTime
            else intensity vNormal uWindDir + flowEffect vWorldPosition uWindDir uTime) \<and>
         snd (fragmentShader vNormal' vWorldPosition' uWindDir' uTime') = 1"
proof -
  have unit: "glsl_normalize uWindDir = uWindDir" if "length3 uWindDir = 1"
    using that by (cases uWindDir) (simp add: glsl_normalize_def)
  show ?thesis
    using assms unit
    by (simp add: fragmentShader_def colorMapping_def flowEffect_def flowPhase_def
        adjustedIntensity_def Let_def multiplyScalar_def uColorLow_def)
qed

lemma glsl_normalize_plusX: "glsl_normalize (Vector3 1 0 0) = Vector3 1 0 0"
  by (simp add: glsl_normalize_def length3_def lengthSq_def)

theorem wake_color_witness:
  "adjustedIntensity (Vector3 1 0 0) (Vector3 0 0 0) (Vector3 1 0 0) 0 \<le> - 0.2 \<and>
   length3 (Vector3 1 0 0) = 1 \<and>
   flowEffect (Vector3 0 0 0) (Vector3 1 0 0) 0 =
     sin (dot (Vector3 0 0 0) (Vector3 1 0 0) * 0.5 - 0 * 10) * 0.05 \<and>
   fragmentShader (Vector3 1 0 0) (Vector3 0 0 0) (Vector3 1 0 0) 0 =
     (Vector3 0 0.3 0.6, 1)"
proof -
  have i: "intensity (Vector3 1 0 0) (Vector3 1 0 0) = - 1"
    by (simp add: intensity_def glsl_normalize_plusX dot_def negate_def)
  have a: "adjustedIntensity (Vector3 1 0 0) (Vector3 0 0 0) (Vector3 1 0 0) 0 = - 1"
    by (simp add: adjustedIntensity_def i turbulence_def)
  have h: "adjustedIntensity (Vector3 1 0 0) (Vector3 0 0 0) (Vector3 1 0 0) 0 \<le> - 0.2"
    by (simp add: a)
  have f: "flowEffect (Vector3 0 0 0) (Vector3 1 0 0) 0 = 0"
    by (simp add: flowEffect_def flowPhase_def dot_def)
  have l: "length3 (Vector3 1 0 0) = 1"
    by (simp add: length3_def lengthSq_def)
  show ?thesis
    using h l
      wake_color_is_scaled_low [OF h, of "Vector3 1 0 0" "Vector3 0 0 0" "Vector3 1 0 0" 0]
    by (simp add: f multiplyScalar_def uColorLow_def)
qed

subsection \<open>The smooth ramp and the three bands\<close>






























subsection \<open>Loading: which geometry is installed\<close>

lemma Model_run_snoc:
  "Model_run prepare st (evs @ [e]) = Model_step prepare (Model_run prepare st evs) e"
  by (simp add: Model_run_def)

lemma load_callback_geometry:
  "geometry (load_callback prepare cb geo st) = Some (prepare geo)"
  by (simp add: load_callback_def Let_def)

lemma LoadDone_installs:
  assumes "u \<in> fst ` set (inflight st)"
  shows "geometry (Model_step prepare st (LoadDone u g)) = Some (prepare g)"
proof -
  obtain r where "find (\<lambda>r. fst r = u) (inflight st) = Some r"
    using assms by (cases "find (\<lambda>r. fst r = u) (inflight st)") (auto simp: find_None_iff)
  then show ?thesis
    by (simp add: load_callback_geometry STLLoader_finish_def)
qed

text \<open>
  C1 claims that after uploads A then B, with B issued before A's parse completes, only
  B's geometry is ever installed. The effect keeps no record of which load is the latest
  one: when B's parse completes first and A's afterwards, the callback of A's load
  installs A's geometry while the \<^verbatim>\<open>url\<close> property is B's.
\<close>

theorem stale_load_reinstated:
  "url (Model_run id (Model_mount ''blob:A'' False)
          [Rerender ''blob:B'' False, LoadDone ''blob:B'' (2::nat), LoadDone ''blob:A'' 1]) =
     ''blob:B'' \<and>
   geometry (Model_run id (Model_mount ''blob:A'' False)
          [Rerender ''blob:B'' False, LoadDone ''blob:B'' (2::nat), LoadDone ''blob:A'' 1]) =
     Some 1 \<and>
   geometry (Model_run id (Model_mount ''blob:A'' False)
          [Rerender ''blob:B'' False, LoadDone ''blob:B'' (2::nat), LoadDone ''blob:A'' 1]) \<noteq>
     Some 2"
  by (simp add: Model_run_def Model_mount_def useEffect_load_def load_callback_def
      STLLoader_finish_def)

text \<open>
  C1, as amended. The geometry installed is that of the load that completed last: a
  completion of a load in flight installs its prepared geometry, whatever happened
  before. For uploads \<open>a\<close> then \<open>b\<close> with different resources, \<open>b\<close>'s geometry is the
  one rendered when \<open>b\<close>'s parse completes after \<open>a\<close>'s or while \<open>a\<close>'s is still in
  flight, and \<open>a\<close>'s is rendered once \<open>a\<close>'s parse completes after \<open>b\<close>'s.
\<close>

theorem last_completed_load_is_rendered:
  assumes "a \<noteq> b" and "u \<in> fst ` set (inflight (Model_run prepare st evs))"
  shows "geometry (Model_run prepare st (evs @ [LoadDone u g])) = Some (prepare g) \<and>
         geometry (Model_run prepare (Model_mount a cb)
                     [Rerender b cb, LoadDone a ga, LoadDone b gb]) = Some (prepare gb) \<and>
         geometry (Model_run prepare (Model_mount a cb)
                     [Rerender b cb, LoadDone b gb]) = Some (prepare gb) \<and>
         geometry (Model_run prepare (Model_mount a cb)
                     [Rerender b cb, LoadDone b gb, LoadDone a ga]) = Some (prepare ga)"
proof -
  have g: "geometry (Model_run prepare st (evs @ [LoadDone u g])) = Some (prepare g)"
    unfolding Model_run_snoc by (rule LoadDone_installs [OF assms(2)])
  have ab: "geometry (Model_run prepare (Model_mount a cb)
                     [Rerender b cb, LoadDone a ga, LoadDone b gb]) = Some (prepare gb)"
    using assms(1)
    by (simp add: Model_run_def Model_mount_def useEffect_load_def load_callback_def Let_def
        STLLoader_finish_def)
  have b: "geometry (Model_run prepare (Model_mount a cb)
                     [Rerender b cb, LoadDone b gb]) = Some (prepare gb)"
    using assms(1)
    by (simp add: Model_run_def Model_mount_def useEffect_load_def load_callback_def Let_def
        STLLoader_finish_def)
  have ba: "geometry (Model_run prepare (Model_mount a cb)
                     [Rerender b cb, LoadDone b gb, LoadDone a ga]) = Some (prepare ga)"
    using assms(1)
    by (simp add: Model_run_def Model_mount_def useEffect_load_def load_callback_def Let_def
        STLLoader_finish_def)
  show ?thesis
    using g ab b ba by simp
qed

theorem last_completed_load_witness:
  "''blob:A'' \<noteq> ''blob:B'' \<and>
   ''blob:B'' \<in> fst ` set (inflight (Model_run id (Model_mount ''blob:A'' False)
                                        [Rerender ''blob:B'' False, LoadDone ''blob:A'' (1::nat)])) \<and>
   geometry (Model_run id (Model_mount ''blob:A'' False)
      ([Rerender ''blob:B'' False, LoadDone ''blob:A'' (1::nat)] @ [LoadDone ''blob:B'' 2])) =
     Some 2"
proof -
  have ne: "''blob:A'' \<noteq> ''blob:B''" by simp
  have inf: "''blob:B'' \<in> fst ` set (inflight (Model_run id (Model_mount ''blob:A'' False)
                                        [Rerender ''blob:B'' False, LoadDone ''blob:A'' (1::nat)]))"
    by (simp add: Model_run_def Model_mount_def useEffect_load_def load_callback_def
      STLLoader_finish_def)
  show ?thesis
    using ne inf last_completed_load_is_rendered [OF ne inf, where g = 2]
    by simp
qed

subsection \<open>Loading: a load that fails\<close>









subsection \<open>The orientation of a streak\<close>

text \<open>
  The near-vertical branch: for a unit wind direction with \<open>\<bar>dir.y\<bar> > 0.99\<close> the
  quaternion of \<^verbatim>\<open>setFromUnitVectors((1, 0, 0), dir)\<close> turns the local x axis, which
  carries the stretch, onto the wind direction.
\<close>

lemma near_vertical_branch_stretches_along_wind:
  assumes unit: "lengthSq dir = 1" and nv: "\<bar>dot dir (Vector3 0 1 0)\<bar> > 0.99"
  shows "col0 (matrix (placeDummy spd dir p dm)) = multiplyScalar dir (stretch spd)"
proof -
  obtain dx dy dz where dir: "dir = Vector3 dx dy dz" by (cases dir)
  have u: "dx * dx + dy * dy + dz * dz = 1"
    using unit by (simp add: dir lengthSq_def)
  have y: "\<bar>dy\<bar> > 0.99"
    using nv by (simp add: dir dot_def)
  have "(99 / 100) * (99 / 100) < \<bar>dy\<bar> * \<bar>dy\<bar>"
    using y by (intro mult_strict_mono) simp_all
  then have yy: "9801 / 10000 < dy * dy" by simp
  have "dx * dx < 225 / 10000"
    using u yy zero_le_square [of dz] by linarith
  then have "\<bar>dx\<bar>\<^sup>2 < (15 / 100)\<^sup>2"
    by (simp add: power2_eq_square)
  then have "\<bar>dx\<bar> < 15 / 100"
    by (rule power2_less_imp_less) simp
  then have r: "85 / 100 < dx + 1" by linarith
  have eps: "Number_EPSILON < 85 / 100"
    by (simp add: Number_EPSILON_def)
  have nr: "\<not> dx + 1 < Number_EPSILON"
    using r eps by linarith
  define l where "l = quat_length (Quaternion 0 (- dz) dy (dx + 1))"
  have ll: "l * l = 2 * (dx + 1)"
  proof -
    have "l * l = dz * dz + dy * dy + (dx + 1) * (dx + 1)"
      unfolding l_def quat_length_def
      by (simp add: add_nonneg_nonneg)
    also have "\<dots> = 2 * (dx + 1)"
      using u by (simp add: algebra_simps)
    finally show ?thesis .
  qed
  have l0: "l \<noteq> 0"
    using ll r by auto
  have q: "setFromUnitVectors (Vector3 1 0 0) dir =
             Quaternion 0 (- dz / l) (dy / l) ((dx + 1) / l)"
    using nr l0
    by (simp add: setFromUnitVectors_def dir dot_def quat_normalize_def Let_def l_def [symmetric])
  have inv: "1 / (l * l) = 1 / (2 * (dx + 1))"
    using ll by simp
  have c1: "1 - (- dz / l * (- dz / l + - dz / l) + dy / l * (dy / l + dy / l)) = dx"
  proof -
    have "- dz / l * (- dz / l + - dz / l) + dy / l * (dy / l + dy / l) =
          2 * (dz * dz + dy * dy) / (l * l)"
      using l0 by (simp add: field_simps)
    also have "\<dots> = 2 * (1 - dx * dx) / (2 * (dx + 1))"
      using u ll by (simp add: algebra_simps)
    also have "\<dots> = 1 - dx"
      using r by (simp add: field_simps)
    finally show ?thesis by simp
  qed
  have c2: "(dx + 1) / l * (dy / l + dy / l) = dy"
  proof -
    have "(dx + 1) / l * (dy / l + dy / l) = 2 * (dx + 1) * dy / (l * l)"
      using l0 by (simp add: field_simps)
    also have "\<dots> = dy"
      unfolding ll using r by simp
    finally show ?thesis .
  qed
  have c3: "- ((dx + 1) / l * (- dz / l + - dz / l)) = dz"
  proof -
    have "- ((dx + 1) / l * (- dz / l + - dz / l)) = 2 * (dx + 1) * dz / (l * l)"
      using l0 by (simp add: field_simps)
    also have "\<dots> = dz"
      unfolding ll using r by simp
    finally show ?thesis .
  qed
  have "col0 (matrix (placeDummy spd dir p dm)) =
          Vector3 ((1 - (- dz / l * (- dz / l + - dz / l) + dy / l * (dy / l + dy / l))) * stretch spd)
                  ((dx + 1) / l * (dy / l + dy / l) * stretch spd)
                  (- ((dx + 1) / l * (- dz / l + - dz / l)) * stretch spd)"
    using nv by (simp add: placeDummy_def Let_def updateMatrix_def q compose_def)
  then show ?thesis
    unfolding c1 c2 c3 by (simp add: dir multiplyScalar_def)
qed


lemma normalize3_plusX: "normalize3 (Vector3 1 0 0) = Vector3 1 0 0"
  by (simp add: normalize3_def length3_def lengthSq_def divideScalar_def multiplyScalar_def)

lemma normalize3_minusZ: "normalize3 (Vector3 0 0 (- 1)) = Vector3 0 0 (- 1)"
  by (simp add: normalize3_def length3_def lengthSq_def divideScalar_def multiplyScalar_def)

lemma matrix_lookAt_plusX:
  "matrix_lookAt (Vector3 (a + 1) b c) (Vector3 a b c) (Vector3 0 1 0) =
     Matrix4 (Vector3 0 0 (- 1)) (Vector3 0 1 0) (Vector3 1 0 0) (Vector3 0 0 0)"
  by (simp add: matrix_lookAt_def subVectors_def lengthSq_def normalize3_plusX crossVectors_def
      normalize3_minusZ)

lemma quarter_turn:
  "setFromRotationMatrix
     (Matrix4 (Vector3 0 0 (- 1)) (Vector3 0 1 0) (Vector3 1 0 0) (Vector3 0 0 0)) =
   Quaternion 0 (1 / sqrt 2) 0 (sqrt 2 / 2)"
  by (simp add: setFromRotationMatrix_def)

lemma compose_quarter_turn:
  "compose pos (Quaternion 0 (1 / sqrt 2) 0 (sqrt 2 / 2)) (Vector3 sx sy sz) =
     Matrix4 (Vector3 0 0 (- sx)) (Vector3 0 sy 0) (Vector3 sz 0 0) pos"
  by (simp add: compose_def Let_def)

text \<open>
  C3 says that in both branches the local axis that carries the stretch is turned onto
  the wind direction. In the look-at branch it is not: \<^verbatim>\<open>lookAt\<close> turns the local
  z axis towards the target. For the wind direction \<open>(1, 0, 0)\<close>, any speed and any
  particle, the matrix committed for the particle maps the local x axis to
  \<open>(0, 0, - stretch)\<close>, at a right angle to the wind, and the local z axis, of length
  \<open>thickness\<close>, onto the wind direction.
\<close>

theorem lookAt_branch_stretches_across_wind:
  "streamlinesDir (Vector3 1 0 0) = Vector3 1 0 0 \<and>
   \<not> \<bar>dot (Vector3 1 0 0) (Vector3 0 1 0)\<bar> > 0.99 \<and>
   matrix (placeDummy spd (streamlinesDir (Vector3 1 0 0)) p dm) =
     Matrix4 (Vector3 0 0 (- stretch spd)) (Vector3 0 (thickness (sizeOffset p)) 0)
             (Vector3 (thickness (sizeOffset p)) 0 0) (Vector3 (px p) (py p) (pz p)) \<and>
   col0 (matrix (placeDummy spd (streamlinesDir (Vector3 1 0 0)) p dm)) \<noteq>
     multiplyScalar (streamlinesDir (Vector3 1 0 0)) (stretch spd) \<and>
   dot (col0 (matrix (placeDummy spd (streamlinesDir (Vector3 1 0 0)) p dm)))
       (streamlinesDir (Vector3 1 0 0)) = 0"
proof -
  have d: "streamlinesDir (Vector3 1 0 0) = Vector3 1 0 0"
    by (simp add: streamlinesDir_def normalize3_plusX lengthSq_def)
  have b: "\<not> \<bar>dot (Vector3 1 0 0) (Vector3 0 1 0)\<bar> > 0.99"
    by (simp add: dot_def)
  have s: "stretch spd \<noteq> 0"
    by (simp add: stretch_def max_def)
  have m: "matrix (placeDummy spd (Vector3 1 0 0) p dm) =
     Matrix4 (Vector3 0 0 (- stretch spd)) (Vector3 0 (thickness (sizeOffset p)) 0)
             (Vector3 (thickness (sizeOffset p)) 0 0) (Vector3 (px p) (py p) (pz p))"
    using b
    by (simp add: placeDummy_def Let_def lookAt_def updateMatrix_def matrix_lookAt_plusX
        quarter_turn compose_quarter_turn compose_def)
  show ?thesis
    using s by (simp add: d b m multiplyScalar_def dot_def)
qed

end
